theory Spec2Isabelle
  imports Main "HOL-Library.AList"
begin

text \<open>
  A model of the execution service of \<^verbatim>\<open>cortex-claude-code-agent-sdk\<close>:
  \<^verbatim>\<open>config.py\<close>, \<^verbatim>\<open>tools.py\<close>, \<^verbatim>\<open>executor.py\<close> and \<^verbatim>\<open>main.py\<close>. The
  functions of the program are functions here, with the state they touch (the working
  directory of the process and the file system) passed in and out, exceptions as the
  left summand of a result, and everything the program calls but does not define (the
  clock, the engine, the storage endpoint, the operating system's refusal of a delete)
  as fields of an environment. The calls to \<^verbatim>\<open>print\<close> are left out. JSON values
  other than strings in the request, symbolic links, errors of the directory
  enumeration, and characters beyond ASCII in the file names that error messages quote
  are outside the model.
\<close>

section \<open>Paths, as pathlib sees them\<close>

text \<open>
  A path is the tuple \<^verbatim>\<open>Path.parts\<close>: for an absolute POSIX path the first part is the
  root (\<^verbatim>\<open>/\<close>, or \<^verbatim>\<open>//\<close> for exactly two leading slashes), the others are the
  names. pathlib drops empty and \<^verbatim>\<open>.\<close> components when it parses a string and keeps
  \<^verbatim>\<open>..\<close>. Characters are bytes here.
\<close>

type_synonym path = "string list"

fun split_slash :: "string \<Rightarrow> string list" where
  "split_slash [] = [[]]"
| "split_slash (c # cs) =
     (if c = CHR ''/'' then [] # split_slash cs
      else (case split_slash cs of [] \<Rightarrow> [[c]] | w # ws \<Rightarrow> (c # w) # ws))"

definition path_parts :: "string \<Rightarrow> path" where
  "path_parts s =
     (let anchor = (if take 1 s = ''/''
                    then (if take 2 s = ''//'' \<and> take 3 s \<noteq> ''///'' then [''//''] else [''/''])
                    else [])
      in anchor @ filter (\<lambda>c. c \<noteq> [] \<and> c \<noteq> ''.'') (split_slash s))"

definition is_absolute :: "path \<Rightarrow> bool" where
  "is_absolute p = (case p of [] \<Rightarrow> False | r # _ \<Rightarrow> r = ''/'' \<or> r = ''//'')"

definition joinpath :: "path \<Rightarrow> path \<Rightarrow> path" where
  \<comment> \<open>\<^verbatim>\<open>a / b\<close>: an absolute right operand replaces the left one.\<close>
  "joinpath a b = (if is_absolute b then b else a @ b)"

definition path_name :: "path \<Rightarrow> string" where
  \<comment> \<open>\<^verbatim>\<open>Path.name\<close>: the last part, empty for a bare root or the empty path.\<close>
  "path_name p = (if p = [] \<or> (is_absolute p \<and> length p = 1) then [] else last p)"

fun normalize :: "path \<Rightarrow> path \<Rightarrow> path" where
  "normalize acc [] = acc"
| "normalize acc (c # cs) =
     (if c = ''..'' then normalize (if length acc \<le> 1 then acc else butlast acc) cs
      else normalize (acc @ [c]) cs)"

fun join_slash :: "string list \<Rightarrow> string" where
  "join_slash [] = []"
| "join_slash [c] = c"
| "join_slash (c # d # cs) = c @ ''/'' @ join_slash (d # cs)"

definition str_path :: "path \<Rightarrow> string" where
  \<comment> \<open>\<^verbatim>\<open>str(path)\<close>\<close>
  "str_path p =
     (if is_absolute p then hd p @ join_slash (tl p)
      else if p = [] then ''.'' else join_slash p)"

definition hex_digit :: "nat \<Rightarrow> char" where
  "hex_digit d = ''0123456789abcdef'' ! d"

definition repr_char :: "char \<Rightarrow> char \<Rightarrow> string" where
  \<comment> \<open>One character inside \<^verbatim>\<open>repr\<close> of a string quoted with \<open>q\<close>.\<close>
  "repr_char q c =
     (if c = q \<or> c = CHR 0x5C then [CHR 0x5C, c]
      else if c = CHR 0x09 then [CHR 0x5C, CHR ''t'']
      else if c = CHR 0x0A then [CHR 0x5C, CHR ''n'']
      else if c = CHR 0x0D then [CHR 0x5C, CHR ''r'']
      else if (of_char c :: nat) < 32 \<or> (of_char c :: nat) = 127
      then [CHR 0x5C, CHR ''x'', hex_digit ((of_char c :: nat) div 16),
            hex_digit ((of_char c :: nat) mod 16)]
      else [c])"

definition py_repr :: "string \<Rightarrow> string" where
  \<comment> \<open>\<^verbatim>\<open>repr\<close> of a string of ASCII characters: single quotes, unless the string has a
      single quote and no double quote.\<close>
  "py_repr s =
     (let q = (if CHR 0x27 \<in> set s \<and> CHR 0x22 \<notin> set s then CHR 0x22 else CHR 0x27)
      in [q] @ concat (map (repr_char q) s) @ [q])"

definition os_error :: "string \<Rightarrow> path \<Rightarrow> string" where
  \<comment> \<open>\<^verbatim>\<open>str\<close> of an OSError that carries a file name: \<^verbatim>\<open>[Errno 17] File exists: '/p'\<close>\<close>
  "os_error msg p = msg @ '': '' @ py_repr (str_path p)"

definition startswith_dot :: "string \<Rightarrow> bool" where
  \<comment> \<open>\<^verbatim>\<open>part.startswith(".")\<close>\<close>
  "startswith_dot s = (take 1 s = ''.'')"

section \<open>The file system and the process state\<close>

text \<open>
  The file system is a tree of regular files and directories (no symbolic links); a
  directory is an association list from names to nodes, read with \<open>map_of\<close>. The process
  state is what \<^verbatim>\<open>os.getcwd\<close>, \<^verbatim>\<open>os.chdir\<close>, \<^verbatim>\<open>Path.mkdir\<close> and
  \<^verbatim>\<open>shutil.rmtree\<close> read and write: the current working directory, one per process,
  and the tree.
\<close>

datatype node = File | Dir "(string \<times> node) list"

record pstate =
  cwd :: path
  fs_root :: node

datatype exn = CancelledError | TimeoutError | Exception string

text \<open>
  \<open>CancelledError\<close> derives from \<^verbatim>\<open>BaseException\<close>, so \<^verbatim>\<open>except Exception\<close> does
  not catch it; \<open>TimeoutError\<close> is \<^verbatim>\<open>asyncio.TimeoutError\<close>; \<open>Exception m\<close> is any
  other exception, \<open>m\<close> its \<^verbatim>\<open>str\<close>.
\<close>

fun lookup :: "node \<Rightarrow> string list \<Rightarrow> node option" where
  "lookup n [] = Some n"
| "lookup File (c # cs) = None"
| "lookup (Dir es) (c # cs) = (case map_of es c of None \<Rightarrow> None | Some m \<Rightarrow> lookup m cs)"

definition abs_lookup :: "node \<Rightarrow> path \<Rightarrow> node option" where
  "abs_lookup r p = (if is_absolute p then lookup r (tl p) else None)"

definition exists_path :: "node \<Rightarrow> path \<Rightarrow> bool" where
  "exists_path r p = (abs_lookup r p \<noteq> None)"

definition is_dir :: "node \<Rightarrow> path \<Rightarrow> bool" where
  "is_dir r p = (case abs_lookup r p of Some (Dir _) \<Rightarrow> True | _ \<Rightarrow> False)"

definition getcwd :: "pstate \<Rightarrow> exn + path" where
  \<comment> \<open>\<^verbatim>\<open>os.getcwd()\<close> raises FileNotFoundError once the directory has been deleted.\<close>
  "getcwd st = (if is_dir (fs_root st) (cwd st) then Inr (cwd st)
                else Inl (Exception ''[Errno 2] No such file or directory''))"

definition chdir :: "path \<Rightarrow> pstate \<Rightarrow> exn + pstate" where
  "chdir p st =
     (if is_dir (fs_root st) p then Inr (st\<lparr>cwd := p\<rparr>)
      else if exists_path (fs_root st) p
      then Inl (Exception (os_error ''[Errno 20] Not a directory'' p))
      else Inl (Exception (os_error ''[Errno 2] No such file or directory'' p)))"

definition resolve :: "pstate \<Rightarrow> path \<Rightarrow> exn + path" where
  \<comment> \<open>\<^verbatim>\<open>Path.resolve()\<close>: a NUL byte in a part raises ValueError; the root becomes
      \<^verbatim>\<open>/\<close>; a relative path is taken from \<^verbatim>\<open>os.getcwd()\<close>; then \<^verbatim>\<open>..\<close> is folded
      away.\<close>
  "resolve st p =
     (if list_ex (\<lambda>c. CHR 0x00 \<in> set c) p then Inl (Exception ''embedded null byte'')
      else if is_absolute p then Inr (normalize [''/''] (tl p))
      else (case getcwd st of Inl e \<Rightarrow> Inl e | Inr d \<Rightarrow> Inr (normalize d p)))"

fun mkdir_p :: "node \<Rightarrow> string list \<Rightarrow> string + node" where
  \<comment> \<open>\<^verbatim>\<open>Path.mkdir(parents=True, exist_ok=True)\<close>, on the names below the root: the new
      tree, or the error of the operating system.\<close>
  "mkdir_p File [] = Inl ''[Errno 17] File exists''"
| "mkdir_p (Dir es) [] = Inr (Dir es)"
| "mkdir_p File (c # cs) = Inl ''[Errno 20] Not a directory''"
| "mkdir_p (Dir es) (c # cs) =
     (case mkdir_p (case map_of es c of None \<Rightarrow> Dir [] | Some m \<Rightarrow> m) cs of
        Inl e \<Rightarrow> Inl e
      | Inr m' \<Rightarrow> Inr (Dir (AList.update c m' es)))"

definition mkdir :: "node \<Rightarrow> path \<Rightarrow> exn + node" where
  \<comment> \<open>The error that is raised is the one of the first \<^verbatim>\<open>os.mkdir\<close>, on the whole
      path.\<close>
  "mkdir r p =
     (if is_absolute p
      then (case mkdir_p r (tl p) of
              Inl msg \<Rightarrow> Inl (Exception (os_error msg p))
            | Inr r' \<Rightarrow> Inr r')
      else Inl (Exception (os_error ''[Errno 2] No such file or directory'' p)))"

fun remove_at :: "node \<Rightarrow> string list \<Rightarrow> node" where
  "remove_at n [] = n"
| "remove_at File (c # cs) = File"
| "remove_at (Dir es) [c] = Dir (AList.delete c es)"
| "remove_at (Dir es) (c # d # cs) =
     (case map_of es c of None \<Rightarrow> Dir es
      | Some m \<Rightarrow> Dir (AList.update c (remove_at m (d # cs)) es))"

definition rmtree :: "string option \<Rightarrow> node \<Rightarrow> path \<Rightarrow> exn option \<times> node" where
  \<comment> \<open>\<^verbatim>\<open>shutil.rmtree(p)\<close>: the exception it raised, if any, and the tree it left. The
      first argument is a failure of the operating system (permissions, a busy file),
      which leaves the tree as it was; a path that is no directory is refused and the
      root itself cannot be unlinked (its entries are deleted, then the call fails).\<close>
  "rmtree refusal r p =
     (case refusal of
        Some m \<Rightarrow> (Some (Exception m), r)
      | None \<Rightarrow>
          if \<not> is_dir r p
          then (Some (Exception (os_error ''[Errno 20] Not a directory'' p)), r)
          else if tl p = []
          then (Some (Exception (os_error ''[Errno 16] Device or resource busy'' p)), Dir [])
          else (None, remove_at r (tl p)))"

fun iterate_directories :: "path \<Rightarrow> node \<Rightarrow> (path \<times> (string \<times> node) list) list"
  and iterate_entries :: "path \<Rightarrow> (string \<times> node) list \<Rightarrow> (path \<times> (string \<times> node) list) list" where
  \<comment> \<open>The directories below and including a directory, each before its subdirectories,
      with their entries.\<close>
  "iterate_directories p File = []"
| "iterate_directories p (Dir es) = (p, es) # iterate_entries p es"
| "iterate_entries p [] = []"
| "iterate_entries p ((n, m) # es) = iterate_directories (p @ [n]) m @ iterate_entries p es"

definition entries_of :: "path \<times> (string \<times> node) list \<Rightarrow> (path \<times> node) list" where
  "entries_of d = (case d of (p, es) \<Rightarrow> map (\<lambda>e. (p @ [fst e], snd e)) es)"

definition rglob :: "node \<Rightarrow> path \<Rightarrow> (path \<times> node) list" where
  \<comment> \<open>\<^verbatim>\<open>workspace.rglob("*")\<close>: every entry below the directory, each with its node.
      pathlib visits the directories parent first and yields all entries of one
      directory before it goes to the next; within a directory the order is the one
      of the association list.\<close>
  "rglob r workspace =
     (case abs_lookup r workspace of
        Some (Dir es) \<Rightarrow> concat (map entries_of (iterate_directories workspace (Dir es)))
      | _ \<Rightarrow> [])"

section \<open>tools.py\<close>

definition keep_item :: "bool \<Rightarrow> path \<times> node \<Rightarrow> bool" where
  \<comment> \<open>The body of the loop of \<^verbatim>\<open>list_workspace_files\<close>: True when the item is appended.\<close>
  "keep_item exclude_hidden x =
     (case x of (item, n) \<Rightarrow>
        if n = File then
          (if exclude_hidden \<and> list_ex startswith_dot item then False
           else if path_name item \<in> set [''__pycache__'', ''.pyc'', ''.pyo''] then False
           else True)
        else False)"

definition list_workspace_files :: "node \<Rightarrow> path \<Rightarrow> bool \<Rightarrow> path list" where
  "list_workspace_files r workspace exclude_hidden =
     map fst (filter (keep_item exclude_hidden) (rglob r workspace))"

type_synonym response = "(string \<times> string) list"

record artifact =
  filename :: string
  url :: string

section \<open>config.py\<close>

record config =
  file_handler_url :: string
  task_timeout_seconds :: int
  max_turns :: int
  workspace_base :: string
  max_concurrent_tasks :: int

definition default_config :: config where
  "default_config =
     \<lparr>file_handler_url = ''http://localhost:3000'', task_timeout_seconds = 300,
      max_turns = 50, workspace_base = ''/tmp/claude-workspaces'', max_concurrent_tasks = 5\<rparr>"

section \<open>executor.py\<close>

text \<open>
  A content block is known to \<^verbatim>\<open>_run_claude\<close> by two attribute tests only:
  \<^verbatim>\<open>hasattr(block, 'text')\<close> and \<^verbatim>\<open>hasattr(block, 'name')\<close>. A message has a
  \<^verbatim>\<open>content\<close> attribute or not, and the content is a list of blocks or a bare string.
\<close>

datatype block = Block (block_text: "string option") (block_name: "string option")

datatype content = ContentList "block list" | ContentStr string

datatype message = Message (message_content: "content option")

text \<open>
  What one call meets outside the program: the clock readings, the engine (it returns
  the messages of the whole stream or raises, and may write to the file system), the
  storage endpoint, and whether the operating system refuses the recursive delete.
  \<open>now_ms\<close> is the value of \<^verbatim>\<open>int(datetime.now().timestamp() * 1000)\<close> on line 26;
  \<open>start_time\<close> is \<^verbatim>\<open>datetime.now()\<close> on line 28, in microseconds; \<open>elapsed_ms\<close> is
  the value of \<^verbatim>\<open>int((datetime.now() - start_time).total_seconds() * 1000)\<close> where the
  call returns (a floating-point product, truncated, of which only the value is
  taken here). A \<open>CancelledError\<close> from the engine or the endpoint stands for the
  cancellation that \<^verbatim>\<open>asyncio.wait_for\<close> delivers at that await when the deadline
  has passed.
\<close>

record env =
  now_ms :: int
  start_time :: int
  elapsed_ms :: int
  engine :: "string \<Rightarrow> path \<Rightarrow> node \<Rightarrow> (exn + message list) \<times> node"
  post :: "path \<Rightarrow> string \<Rightarrow> string \<Rightarrow> exn + response"
  rmtree_error :: "string option"

datatype 'a field = Absent | Null | Value 'a

text \<open>
  The result dictionary: a key is absent, present with \<^verbatim>\<open>None\<close>, or present with a
  value.
\<close>

record envelope =
  success :: bool
  result :: "string field"
  artifacts :: "artifact list field"
  error :: "string field"
  duration_ms :: "int field"

definition digit_char :: "nat \<Rightarrow> char" where
  "digit_char d = ''0123456789'' ! d"

fun str_nat :: "nat \<Rightarrow> string" where
  "str_nat n = (if n < 10 then [digit_char n] else str_nat (n div 10) @ [digit_char (n mod 10)])"

declare str_nat.simps [simp del]

definition str_int :: "int \<Rightarrow> string" where
  \<comment> \<open>\<^verbatim>\<open>str\<close> of a Python integer\<close>
  "str_int i = (if i < 0 then CHR ''-'' # str_nat (nat (- i)) else str_nat (nat i))"

definition gen_task_id :: "int \<Rightarrow> string" where
  \<comment> \<open>\<^verbatim>\<open>f"cc-{int(datetime.now().timestamp() * 1000)}"\<close>, from the value of the integer\<close>
  "gen_task_id ms = ''cc-'' @ str_int ms"

definition choose_task_id :: "env \<Rightarrow> string option \<Rightarrow> string" where
  \<comment> \<open>\<^verbatim>\<open>task_id or f"cc-..."\<close>: \<^verbatim>\<open>None\<close> and the empty string are both falsy.\<close>
  "choose_task_id ev task_id =
     (case task_id of
        None \<Rightarrow> gen_task_id (now_ms ev)
      | Some t \<Rightarrow> if t = [] then gen_task_id (now_ms ev) else t)"

definition prompt_of :: "string \<Rightarrow> string" where
  "prompt_of task_content =
     task_content @ [CHR 0x0A, CHR 0x0A] @
     ''If this creates files, list them at the end. If it'' @ [CHR 0x27] @
     ''s just a calculation/answer, just give the answer.''"

fun consume_block :: "string \<Rightarrow> block \<Rightarrow> string" where
  \<comment> \<open>A block with a text replaces the response; one with a name only is printed.\<close>
  "consume_block final_response (Block t n) =
     (case t of
        Some s \<Rightarrow> s
      | None \<Rightarrow> (case n of Some _ \<Rightarrow> final_response | None \<Rightarrow> final_response))"

fun consume_message :: "string \<Rightarrow> message \<Rightarrow> string" where
  \<comment> \<open>A missing or falsy content is skipped; a bare string is wrapped in a list and has
      neither attribute.\<close>
  "consume_message final_response (Message c) =
     (case c of
        None \<Rightarrow> final_response
      | Some (ContentList bs) \<Rightarrow>
          if bs = [] then final_response else foldl consume_block final_response bs
      | Some (ContentStr s) \<Rightarrow> final_response)"

definition consume_stream :: "message list \<Rightarrow> string" where
  \<comment> \<open>The \<^verbatim>\<open>async for\<close> of \<^verbatim>\<open>_run_claude\<close>, from \<^verbatim>\<open>final_response = ""\<close>.\<close>
  "consume_stream msgs = foldl consume_message [] msgs"

definition run_claude :: "env \<Rightarrow> string \<Rightarrow> path \<Rightarrow> node \<Rightarrow> (exn + string) \<times> node" where
  \<comment> \<open>\<^verbatim>\<open>_run_claude\<close>\<close>
  "run_claude ev task_content workspace r =
     (case engine ev (prompt_of task_content) workspace r of
        (Inl e, r') \<Rightarrow> (Inl e, r')
      | (Inr msgs, r') \<Rightarrow> (Inr (consume_stream msgs), r'))"

definition upload_to_file_handler ::
  "env \<Rightarrow> node \<Rightarrow> path \<Rightarrow> string \<Rightarrow> string \<Rightarrow> path list \<Rightarrow> (exn + response) \<times> path list" where
  \<comment> \<open>The last argument and the second result are the files posted to the endpoint so
      far, in order.\<close>
  "upload_to_file_handler ev r filepath handler_url context_id posted =
     (if \<not> exists_path r filepath
      then (Inl (Exception (''File not found: '' @ str_path filepath)), posted)
      else (post ev filepath handler_url context_id, posted @ [filepath]))"

fun upload_loop ::
  "config \<Rightarrow> env \<Rightarrow> node \<Rightarrow> string \<Rightarrow> path list \<Rightarrow> artifact list \<Rightarrow> path list
     \<Rightarrow> (exn + artifact list) \<times> path list" where
  "upload_loop cfg ev r context_id [] arts posted = (Inr arts, posted)"
| "upload_loop cfg ev r context_id (filepath # files) arts posted =
     (case upload_to_file_handler ev r filepath (file_handler_url cfg) context_id posted of
        (Inr resp, posted') \<Rightarrow>
          upload_loop cfg ev r context_id files
            (arts @ [\<lparr>filename = path_name filepath,
                      url = (case map_of resp ''url'' of None \<Rightarrow> [] | Some u \<Rightarrow> u)\<rparr>]) posted'
      | (Inl CancelledError, posted') \<Rightarrow> (Inl CancelledError, posted')
      | (Inl _, posted') \<Rightarrow> upload_loop cfg ev r context_id files arts posted')"

definition upload_artifacts ::
  "config \<Rightarrow> env \<Rightarrow> node \<Rightarrow> path \<Rightarrow> string \<Rightarrow> (exn + artifact list) \<times> path list" where
  \<comment> \<open>\<^verbatim>\<open>_upload_artifacts\<close>\<close>
  "upload_artifacts cfg ev r workspace context_id =
     (if \<not> exists_path r workspace then (Inr [], [])
      else upload_loop cfg ev r context_id (list_workspace_files r workspace True) [] [])"

definition setup_workspace :: "path \<Rightarrow> pstate \<Rightarrow> (exn + unit) \<times> path option \<times> pstate" where
  \<comment> \<open>Lines 35 to 37, which run without an await in between. The second result is the
      local \<^verbatim>\<open>original_cwd\<close>, \<open>None\<close> while it is unbound.\<close>
  "setup_workspace workspace st =
     (case mkdir (fs_root st) workspace of
        Inl e \<Rightarrow> (Inl e, None, st)
      | Inr r1 \<Rightarrow>
          (let st1 = st\<lparr>fs_root := r1\<rparr> in
           case getcwd st1 of
             Inl e \<Rightarrow> (Inl e, None, st1)
           | Inr original_cwd \<Rightarrow>
               (case chdir workspace st1 of
                  Inl e \<Rightarrow> (Inl e, Some original_cwd, st1)
                | Inr st2 \<Rightarrow> (Inr (), Some original_cwd, st2))))"

definition try_body ::
  "config \<Rightarrow> env \<Rightarrow> string \<Rightarrow> string \<Rightarrow> path \<Rightarrow> pstate
     \<Rightarrow> (exn + envelope) \<times> path option \<times> pstate" where
  \<comment> \<open>The \<^verbatim>\<open>try\<close> block of \<^verbatim>\<open>execute_task\<close>, lines 33 to 57.\<close>
  "try_body cfg ev task_content context_id workspace st =
     (case setup_workspace workspace st of
        (Inl e, original_cwd, st1) \<Rightarrow> (Inl e, original_cwd, st1)
      | (Inr _, original_cwd, st1) \<Rightarrow>
          (case run_claude ev task_content workspace (fs_root st1) of
             (Inl e, r2) \<Rightarrow> (Inl e, original_cwd, st1\<lparr>fs_root := r2\<rparr>)
           | (Inr result_text, r2) \<Rightarrow>
               (case upload_artifacts cfg ev r2 workspace context_id of
                  (Inl e, posted) \<Rightarrow> (Inl e, original_cwd, st1\<lparr>fs_root := r2\<rparr>)
                | (Inr arts, posted) \<Rightarrow>
                    (Inr \<lparr>success = True, result = Value result_text, artifacts = Value arts,
                          error = Absent, duration_ms = Value (elapsed_ms ev)\<rparr>,
                     original_cwd, st1\<lparr>fs_root := r2\<rparr>))))"

definition cleanup :: "env \<Rightarrow> path option \<Rightarrow> path \<Rightarrow> pstate \<Rightarrow> pstate" where
  \<comment> \<open>The \<^verbatim>\<open>finally\<close> block, lines 75 to 85: both steps swallow every exception. With
      \<^verbatim>\<open>original_cwd\<close> unbound the first step raises NameError.\<close>
  "cleanup ev original_cwd workspace st =
     (let st1 = (case original_cwd of
                   None \<Rightarrow> st
                 | Some d \<Rightarrow> (case chdir d st of Inl _ \<Rightarrow> st | Inr st' \<Rightarrow> st'))
      in if exists_path (fs_root st1) workspace
         then st1\<lparr>fs_root := snd (rmtree (rmtree_error ev) (fs_root st1) workspace)\<rparr>
         else st1)"

definition handlers :: "env \<Rightarrow> exn + envelope \<Rightarrow> exn + envelope" where
  \<comment> \<open>The \<^verbatim>\<open>except\<close> clauses, lines 59 to 74; a \<open>CancelledError\<close> passes through.\<close>
  "handlers ev r =
     (case r of
        Inr e \<Rightarrow> Inr e
      | Inl TimeoutError \<Rightarrow>
          Inr \<lparr>success = False, result = Null, artifacts = Absent,
                error = Value ''Task timed out'', duration_ms = Value (elapsed_ms ev)\<rparr>
      | Inl (Exception m) \<Rightarrow>
          Inr \<lparr>success = False, result = Null, artifacts = Absent,
                error = Value m, duration_ms = Value (elapsed_ms ev)\<rparr>
      | Inl CancelledError \<Rightarrow> Inl CancelledError)"

definition workspace_of :: "config \<Rightarrow> env \<Rightarrow> string option \<Rightarrow> pstate \<Rightarrow> exn + path" where
  \<comment> \<open>Lines 26 and 27: \<^verbatim>\<open>(Path(WORKSPACE_BASE) / task_id).resolve()\<close>\<close>
  "workspace_of cfg ev task_id st =
     resolve st (joinpath (path_parts (workspace_base cfg)) (path_parts (choose_task_id ev task_id)))"

definition execute_task ::
  "config \<Rightarrow> env \<Rightarrow> string \<Rightarrow> string \<Rightarrow> string option \<Rightarrow> pstate \<Rightarrow> (exn + envelope) \<times> pstate" where
  \<comment> \<open>\<open>Inr\<close> is the dictionary returned, \<open>Inl\<close> the exception that leaves the call.\<close>
  "execute_task cfg ev task_content context_id task_id st =
     (case workspace_of cfg ev task_id st of
        Inl e \<Rightarrow> (Inl e, st)
      | Inr workspace \<Rightarrow>
          (case try_body cfg ev task_content context_id workspace st of
             (r, original_cwd, st1) \<Rightarrow>
               (handlers ev r, cleanup ev original_cwd workspace st1)))"

section \<open>main.py\<close>

record request_body =
  task :: "string option"
  contextId :: "string option"
  taskId :: "string option"

record http_response =
  status :: nat
  body :: envelope

definition falsy :: "string option \<Rightarrow> bool" where
  \<comment> \<open>\<^verbatim>\<open>not x\<close> for the result of \<^verbatim>\<open>data.get\<close>: a missing key or an empty string\<close>
  "falsy x = (case x of None \<Rightarrow> True | Some s \<Rightarrow> s = [])"

definition error_body :: "string \<Rightarrow> envelope" where
  \<comment> \<open>\<^verbatim>\<open>{"success": False, "error": msg}\<close>\<close>
  "error_body msg =
     \<lparr>success = False, result = Absent, artifacts = Absent, error = Value msg,
      duration_ms = Absent\<rparr>"

type_synonym args = "string \<times> string \<times> string option"

definition receive :: "request_body option \<Rightarrow> http_response + args" where
  \<comment> \<open>Lines 37 to 59. The request's body is \<open>None\<close> when it is not valid JSON. The
      right summand is \<^verbatim>\<open>task\<close>, \<^verbatim>\<open>context_id\<close> and \<^verbatim>\<open>task_id\<close>.\<close>
  "receive data =
     (case data of
        None \<Rightarrow> Inl \<lparr>status = 400, body = error_body ''Invalid JSON body''\<rparr>
      | Some d \<Rightarrow>
          if falsy (task d)
          then Inl \<lparr>status = 400,
                    body = error_body (''Missing '' @ [CHR 0x27] @ ''task'' @ [CHR 0x27] @ '' field'')\<rparr>
          else if falsy (contextId d)
          then Inl \<lparr>status = 400,
                    body = error_body (''Missing '' @ [CHR 0x27] @ ''contextId'' @ [CHR 0x27] @ '' field'')\<rparr>
          else Inr (the (task d), the (contextId d), taskId d))"

text \<open>
  What the handlers of one process share: the process state and the module's
  \<^verbatim>\<open>_semaphore\<close>, of which \<open>sem_value\<close> is the counter. The two logs are written by
  \<^verbatim>\<open>acquire\<close> and \<^verbatim>\<open>release\<close> with the number of the request they served; the
  program does not read them.
\<close>

record service =
  proc :: pstate
  sem_value :: nat
  acquire_log :: "nat list"
  release_log :: "nat list"

definition service_init :: "config \<Rightarrow> pstate \<Rightarrow> exn + service" where
  \<comment> \<open>Line 16, \<^verbatim>\<open>asyncio.Semaphore(MAX_CONCURRENT_TASKS)\<close>: a negative value raises
      ValueError when the module is imported.\<close>
  "service_init cfg p =
     (if max_concurrent_tasks cfg < 0
      then Inl (Exception ''Semaphore initial value must be >= 0'')
      else Inr \<lparr>proc = p, sem_value = nat (max_concurrent_tasks cfg), acquire_log = [],
                 release_log = []\<rparr>)"

definition acquire :: "nat \<Rightarrow> service \<Rightarrow> service option" where
  \<comment> \<open>\<^verbatim>\<open>_semaphore.acquire()\<close> for request \<open>i\<close>: \<open>None\<close> while the counter is zero and
      the caller stays suspended.\<close>
  "acquire i sv =
     (if 0 < sem_value sv
      then Some (sv\<lparr>sem_value := sem_value sv - 1, acquire_log := acquire_log sv @ [i]\<rparr>)
      else None)"

definition release :: "nat \<Rightarrow> service \<Rightarrow> service" where
  \<comment> \<open>\<^verbatim>\<open>_semaphore.release()\<close> for request \<open>i\<close>\<close>
  "release i sv = sv\<lparr>sem_value := sem_value sv + 1, release_log := release_log sv @ [i]\<rparr>"

definition leave_block ::
  "config \<Rightarrow> nat \<Rightarrow> (exn + envelope) \<times> pstate \<Rightarrow> service \<Rightarrow> http_response \<times> service" where
  \<comment> \<open>Lines 65 to 82 after \<^verbatim>\<open>execute_task\<close> has come to its end under
      \<^verbatim>\<open>asyncio.wait_for\<close>, which turns the cancellation it delivered at the deadline
      into a TimeoutError: each of the three \<^verbatim>\<open>return\<close> statements leaves the
      \<^verbatim>\<open>async with\<close> block, whose \<^verbatim>\<open>__aexit__\<close> releases.\<close>
  "leave_block cfg i outcome sv =
     (case outcome of
        (Inr res, p') \<Rightarrow> (\<lparr>status = 200, body = res\<rparr>, release i (sv\<lparr>proc := p'\<rparr>))
      | (Inl (Exception m), p') \<Rightarrow>
          (\<lparr>status = 500, body = error_body m\<rparr>, release i (sv\<lparr>proc := p'\<rparr>))
      | (Inl _, p') \<Rightarrow>
          (\<lparr>status = 200,
            body = error_body (''Task timed out after '' @
                     str_int (task_timeout_seconds cfg) @ ''s'')\<rparr>,
           release i (sv\<lparr>proc := p'\<rparr>)))"

definition handle_execute ::
  "config \<Rightarrow> env \<Rightarrow> nat \<Rightarrow> request_body option \<Rightarrow> service
     \<Rightarrow> (http_response \<times> service) option" where
  \<comment> \<open>One request, number \<open>i\<close>, served with no other in between. \<open>None\<close>: the handler
      stays suspended at \<^verbatim>\<open>async with _semaphore\<close>.\<close>
  "handle_execute cfg ev i data sv =
     (case receive data of
        Inl resp \<Rightarrow> Some (resp, sv)
      | Inr (task_content, context_id, task_id) \<Rightarrow>
          (case acquire i sv of
             None \<Rightarrow> None
           | Some sv1 \<Rightarrow>
               Some (leave_block cfg i
                       (execute_task cfg ev task_content context_id task_id (proc sv1)) sv1)))"

section \<open>Requests in flight together\<close>

text \<open>
  asyncio runs one coroutine at a time and changes to another only at an await. A
  request is therefore served in segments that run undisturbed: the checks up to
  \<^verbatim>\<open>async with\<close>; the acquisition of a slot; \<^verbatim>\<open>execute_task\<close> up to the await of the
  engine (lines 26 to 37, and the handlers and the cleanup when they fail); and the
  rest of \<^verbatim>\<open>execute_task\<close> from the engine's answer to the return, with the exit from
  the block. The awaits between the uploads are not separated. Segments of different
  requests interleave in any order.
\<close>

record running_task =
  rt_workspace :: path
  rt_original_cwd :: "path option"

definition execute_begin ::
  "config \<Rightarrow> env \<Rightarrow> string option \<Rightarrow> pstate
     \<Rightarrow> ((exn + envelope) + running_task) \<times> pstate" where
  \<comment> \<open>\<^verbatim>\<open>execute_task\<close> up to the await of the engine: its end, when it ends there, or
      the locals it keeps while it waits.\<close>
  "execute_begin cfg ev task_id st =
     (case workspace_of cfg ev task_id st of
        Inl e \<Rightarrow> (Inl (Inl e), st)
      | Inr workspace \<Rightarrow>
          (case setup_workspace workspace st of
             (Inl e, original_cwd, st1) \<Rightarrow>
               (Inl (handlers ev (Inl e)), cleanup ev original_cwd workspace st1)
           | (Inr _, original_cwd, st1) \<Rightarrow>
               (Inr \<lparr>rt_workspace = workspace, rt_original_cwd = original_cwd\<rparr>, st1)))"

definition execute_finish ::
  "config \<Rightarrow> env \<Rightarrow> string \<Rightarrow> string \<Rightarrow> running_task \<Rightarrow> pstate
     \<Rightarrow> (exn + envelope) \<times> pstate" where
  \<comment> \<open>\<^verbatim>\<open>execute_task\<close> from the engine's answer on: lines 41 to 57, the handlers and
      the cleanup.\<close>
  "execute_finish cfg ev task_content context_id rt st =
     (case run_claude ev task_content (rt_workspace rt) (fs_root st) of
        (Inl e, r2) \<Rightarrow>
          (handlers ev (Inl e),
           cleanup ev (rt_original_cwd rt) (rt_workspace rt) (st\<lparr>fs_root := r2\<rparr>))
      | (Inr result_text, r2) \<Rightarrow>
          (case upload_artifacts cfg ev r2 (rt_workspace rt) context_id of
             (Inl e, posted) \<Rightarrow>
               (handlers ev (Inl e),
                cleanup ev (rt_original_cwd rt) (rt_workspace rt) (st\<lparr>fs_root := r2\<rparr>))
           | (Inr arts, posted) \<Rightarrow>
               (Inr \<lparr>success = True, result = Value result_text, artifacts = Value arts,
                     error = Absent, duration_ms = Value (elapsed_ms ev)\<rparr>,
                cleanup ev (rt_original_cwd rt) (rt_workspace rt) (st\<lparr>fs_root := r2\<rparr>))))"

datatype stage =
  Queued args | Admitted args | InFlight args running_task | Responded http_response

record system =
  svc :: service
  requests :: "(env \<times> stage) list"

datatype event = Arrive env "request_body option" | Enter nat | Begin nat | Finish nat

definition system_init :: "config \<Rightarrow> pstate \<Rightarrow> exn + system" where
  "system_init cfg p =
     (case service_init cfg p of
        Inl e \<Rightarrow> Inl e
      | Inr sv \<Rightarrow> Inr \<lparr>svc = sv, requests = []\<rparr>)"

definition set_stage :: "nat \<Rightarrow> stage \<Rightarrow> service \<Rightarrow> system \<Rightarrow> system" where
  \<comment> \<open>Request \<open>i\<close> has run a segment: the shared state it left and where it waits now.\<close>
  "set_stage i g sv s =
     s\<lparr>svc := sv, requests := (requests s)[i := (fst (requests s ! i), g)]\<rparr>"

fun step :: "config \<Rightarrow> event \<Rightarrow> system \<Rightarrow> system option" where
  "step cfg (Arrive ev data) s =
     Some (s\<lparr>requests := requests s @
             [(ev, case receive data of Inl resp \<Rightarrow> Responded resp | Inr a \<Rightarrow> Queued a)]\<rparr>)"
| "step cfg (Enter i) s =
     (if i < length (requests s) then
        (case requests s ! i of
           (ev, Queued a) \<Rightarrow>
             (case acquire i (svc s) of
                None \<Rightarrow> None
              | Some sv \<Rightarrow> Some (set_stage i (Admitted a) sv s))
         | _ \<Rightarrow> None)
      else None)"
| "step cfg (Begin i) s =
     (if i < length (requests s) then
        (case requests s ! i of
           (ev, Admitted (task_content, context_id, task_id)) \<Rightarrow>
             (case execute_begin cfg ev task_id (proc (svc s)) of
                (Inl r, p') \<Rightarrow>
                  (case leave_block cfg i (r, p') (svc s) of
                     (resp, sv) \<Rightarrow> Some (set_stage i (Responded resp) sv s))
              | (Inr rt, p') \<Rightarrow>
                  Some (set_stage i (InFlight (task_content, context_id, task_id) rt)
                          ((svc s)\<lparr>proc := p'\<rparr>) s))
         | _ \<Rightarrow> None)
      else None)"
| "step cfg (Finish i) s =
     (if i < length (requests s) then
        (case requests s ! i of
           (ev, InFlight (task_content, context_id, task_id) rt) \<Rightarrow>
             (case leave_block cfg i
                     (execute_finish cfg ev task_content context_id rt (proc (svc s))) (svc s) of
                (resp, sv) \<Rightarrow> Some (set_stage i (Responded resp) sv s))
         | _ \<Rightarrow> None)
      else None)"

fun run_events :: "config \<Rightarrow> event list \<Rightarrow> system \<Rightarrow> system option" where
  "run_events cfg [] s = Some s"
| "run_events cfg (e # es) s =
     (case step cfg e s of None \<Rightarrow> None | Some s' \<Rightarrow> run_events cfg es s')"

definition holds_slot :: "env \<times> stage \<Rightarrow> bool" where
  \<comment> \<open>The request is inside the \<^verbatim>\<open>async with\<close> block.\<close>
  "holds_slot x = (case snd x of Admitted _ \<Rightarrow> True | InFlight _ _ \<Rightarrow> True | _ \<Rightarrow> False)"

definition holding :: "system \<Rightarrow> nat" where
  "holding s = length (filter holds_slot (requests s))"

definition acquisitions_due :: "stage \<Rightarrow> nat" where
  \<comment> \<open>How often \<^verbatim>\<open>acquire\<close> has returned for a request at this stage: not before it is
      admitted, and never for one refused with status 400 before the block.\<close>
  "acquisitions_due g =
     (case g of
        Queued _ \<Rightarrow> 0
      | Admitted _ \<Rightarrow> 1
      | InFlight _ _ \<Rightarrow> 1
      | Responded resp \<Rightarrow> if status resp = 400 then 0 else 1)"

definition releases_due :: "stage \<Rightarrow> nat" where
  \<comment> \<open>How often \<^verbatim>\<open>release\<close> has been called for a request at this stage: once when it
      has been answered from inside the block, not before.\<close>
  "releases_due g =
     (case g of
        Responded resp \<Rightarrow> if status resp = 400 then 0 else 1
      | _ \<Rightarrow> 0)"

definition accounted :: "system \<Rightarrow> nat \<Rightarrow> bool" where
  "accounted s i =
     (count_list (acquire_log (svc s)) i = acquisitions_due (snd (requests s ! i)) \<and>
      count_list (release_log (svc s)) i = releases_due (snd (requests s ! i)))"

definition sys_inv :: "config \<Rightarrow> system \<Rightarrow> bool" where
  "sys_inv cfg s =
     (int (sem_value (svc s) + holding s) = max_concurrent_tasks cfg \<and>
      (\<forall>i < length (requests s). accounted s i) \<and>
      (\<forall>j \<ge> length (requests s).
         count_list (acquire_log (svc s)) j = 0 \<and> count_list (release_log (svc s)) j = 0))"

section \<open>The specification's wording of the Task Runner\<close>

definition block_texts :: "message \<Rightarrow> string list" where
  \<comment> \<open>The texts of the textual content blocks of one message, in order.\<close>
  "block_texts m =
     (case message_content m of
        Some (ContentList bs) \<Rightarrow> map the (filter (\<lambda>t. t \<noteq> None) (map block_text bs))
      | _ \<Rightarrow> [])"

definition latest_text :: "message list \<Rightarrow> string" where
  \<comment> \<open>The most recent textual content block across all messages, empty when there is
      none.\<close>
  "latest_text msgs =
     (case rev (concat (map block_texts msgs)) of [] \<Rightarrow> [] | t # _ \<Rightarrow> t)"

definition pick :: "string \<Rightarrow> string list \<Rightarrow> string" where
  \<comment> \<open>The last of the texts, or the given one when there is none.\<close>
  "pick acc ts = (case rev ts of [] \<Rightarrow> acc | t # _ \<Rightarrow> t)"

section \<open>What the artifact loop is expected to produce\<close>

definition uploaded :: "config \<Rightarrow> env \<Rightarrow> node \<Rightarrow> string \<Rightarrow> path \<Rightarrow> bool" where
  \<comment> \<open>The file is still there and the endpoint answered its upload.\<close>
  "uploaded cfg ev r context_id f =
     (exists_path r f \<and>
      (case post ev f (file_handler_url cfg) context_id of Inr _ \<Rightarrow> True | Inl _ \<Rightarrow> False))"

definition artifact_of :: "config \<Rightarrow> env \<Rightarrow> string \<Rightarrow> path \<Rightarrow> artifact" where
  "artifact_of cfg ev context_id f =
     \<lparr>filename = path_name f,
      url = (case post ev f (file_handler_url cfg) context_id of
               Inr resp \<Rightarrow> (case map_of resp ''url'' of None \<Rightarrow> [] | Some u \<Rightarrow> u)
             | Inl _ \<Rightarrow> [])\<rparr>"

section \<open>Concrete environments\<close>

definition example_state :: pstate where
  "example_state = \<lparr>cwd = [''/'', ''app''], fs_root = Dir [(''app'', Dir []), (''tmp'', Dir [])]\<rparr>"

definition example_workspace :: path where
  "example_workspace = [''/'', ''tmp'', ''claude-workspaces'', ''cc-1000'']"

definition engine_answer :: "string \<Rightarrow> path \<Rightarrow> node \<Rightarrow> (exn + message list) \<times> node" where
  "engine_answer prompt workspace r =
     (Inr [Message (Some (ContentList [Block (Some ''thinking'') None])),
           Message (Some (ContentList [Block None (Some ''Bash''), Block (Some ''4'') None]))], r)"

definition engine_tools_only :: "string \<Rightarrow> path \<Rightarrow> node \<Rightarrow> (exn + message list) \<times> node" where
  "engine_tools_only prompt workspace r =
     (Inr [Message None, Message (Some (ContentList [Block None (Some ''Bash'')])),
           Message (Some (ContentStr ''ok''))], r)"

definition engine_cancelled :: "string \<Rightarrow> path \<Rightarrow> node \<Rightarrow> (exn + message list) \<times> node" where
  "engine_cancelled prompt workspace r = (Inl CancelledError, r)"

definition engine_writes :: "string \<Rightarrow> path \<Rightarrow> node \<Rightarrow> (exn + message list) \<times> node" where
  \<comment> \<open>The engine leaves three files in the workspace of task \<^verbatim>\<open>cc-1000\<close>.\<close>
  "engine_writes prompt workspace r =
     (Inr [Message (Some (ContentList [Block (Some ''done'') None]))],
      Dir [(''app'', Dir []),
           (''tmp'', Dir [(''claude-workspaces'',
              Dir [(''cc-1000'', Dir [(''a.csv'', File), (''b.csv'', File), (''c.csv'', File)])])])])"

definition post_ok :: "path \<Rightarrow> string \<Rightarrow> string \<Rightarrow> exn + response" where
  "post_ok f handler_url context_id = Inr [(''url'', ''http://files/'' @ path_name f)]"

definition post_flaky :: "path \<Rightarrow> string \<Rightarrow> string \<Rightarrow> exn + response" where
  \<comment> \<open>The endpoint refuses \<^verbatim>\<open>b.csv\<close> with a status error.\<close>
  "post_flaky f handler_url context_id =
     (if path_name f = ''b.csv'' then Inl (Exception ''500 Internal Server Error'')
      else Inr [(''url'', ''http://files/'' @ path_name f)])"

definition example_env :: "(string \<Rightarrow> path \<Rightarrow> node \<Rightarrow> (exn + message list) \<times> node) \<Rightarrow> env" where
  "example_env e =
     \<lparr>now_ms = 1000, start_time = 1000000, elapsed_ms = 2500, engine = e, post = post_ok,
      rmtree_error = None\<rparr>"

definition example_request :: request_body where
  "example_request = \<lparr>task = Some ''compute 2+2'', contextId = Some ''ctx1'', taskId = None\<rparr>"

definition env_flaky :: env where
  "env_flaky = (example_env engine_writes)\<lparr>post := post_flaky\<rparr>"

definition env_denied :: env where
  \<comment> \<open>The operating system refuses the recursive delete.\<close>
  "env_denied =
     (example_env engine_answer)\<lparr>rmtree_error := Some ''[Errno 13] Permission denied''\<rparr>"

definition config_dotdot :: config where
  "config_dotdot = default_config\<lparr>workspace_base := ''/srv/../tmp/claude-workspaces''\<rparr>"

definition config_hidden :: config where
  "config_hidden = default_config\<lparr>workspace_base := ''/home/agent/.cache/workspaces''\<rparr>"

definition hidden_workspace :: path where
  "hidden_workspace = [''/'', ''home'', ''agent'', ''.cache'', ''workspaces'', ''cc-1000'']"

definition engine_writes_hidden :: "string \<Rightarrow> path \<Rightarrow> node \<Rightarrow> (exn + message list) \<times> node" where
  \<comment> \<open>The engine leaves \<^verbatim>\<open>report.csv\<close> in the workspace below \<^verbatim>\<open>.cache\<close>.\<close>
  "engine_writes_hidden prompt workspace r =
     (Inr [Message (Some (ContentList [Block (Some ''done'') None]))],
      Dir [(''app'', Dir []),
           (''home'', Dir [(''agent'', Dir [(''.cache'', Dir [(''workspaces'',
              Dir [(''cc-1000'', Dir [(''report.csv'', File)])])])])])])"

definition config_short :: config where
  \<comment> \<open>The test configuration of the specification: a deadline of five seconds.\<close>
  "config_short = default_config\<lparr>task_timeout_seconds := 5\<rparr>"

definition pyc_tree :: node where
  "pyc_tree =
     Dir [(''ws'', Dir [(''report.csv'', File), (''.cache'', File), (''mod.pyc'', File),
                        (''__pycache__'', Dir [(''mod.cpython-311.pyc'', File)]),
                        (''.git'', Dir [(''config'', File)])])]"

section \<open>Reading a decimal numeral back\<close>

definition digit_val :: "char \<Rightarrow> nat" where
  "digit_val c = (case map_of (zip ''0123456789'' [0..<10]) c of None \<Rightarrow> 0 | Some d \<Rightarrow> d)"

definition nat_of_digits :: "string \<Rightarrow> nat" where
  "nat_of_digits s = foldl (\<lambda>a c. 10 * a + digit_val c) 0 s"

section \<open>Two invocations in one millisecond\<close>

definition env_burst_a :: env where
  "env_burst_a = example_env engine_answer"

definition env_burst_b :: env where
  \<comment> \<open>A second invocation, 400 microseconds after the first, in the same millisecond.\<close>
  "env_burst_b = (example_env engine_answer)\<lparr>start_time := 1000400\<rparr>"

section \<open>Requests for the service\<close>

definition example_service :: service where
  \<comment> \<open>The service as \<^verbatim>\<open>service_init default_config example_state\<close> leaves it.\<close>
  "example_service =
     \<lparr>proc = example_state, sem_value = 5, acquire_log = [], release_log = []\<rparr>"

definition engine_fails :: "string \<Rightarrow> path \<Rightarrow> node \<Rightarrow> (exn + message list) \<times> node" where
  "engine_fails prompt workspace r = (Inl (Exception ''engine crashed''), r)"

definition engine_times_out :: "string \<Rightarrow> path \<Rightarrow> node \<Rightarrow> (exn + message list) \<times> node" where
  \<comment> \<open>The engine itself raises \<^verbatim>\<open>asyncio.TimeoutError\<close>.\<close>
  "engine_times_out prompt workspace r = (Inl TimeoutError, r)"

definition post_cancelled :: "path \<Rightarrow> string \<Rightarrow> string \<Rightarrow> exn + response" where
  "post_cancelled f handler_url context_id = Inl CancelledError"

definition env_upload_cancelled :: env where
  \<comment> \<open>The deadline passes while the first file is uploaded.\<close>
  "env_upload_cancelled = (example_env engine_writes)\<lparr>post := post_cancelled\<rparr>"

definition request_for :: "string \<Rightarrow> request_body" where
  "request_for tid = \<lparr>task = Some ''compute 2+2'', contextId = Some ''ctx1'', taskId = Some tid\<rparr>"

definition workspace_b :: path where
  "workspace_b = [''/'', ''tmp'', ''claude-workspaces'', ''task-b'']"

definition overlap_events :: "event list" where
  \<comment> \<open>Requests 0, 1 and 2 (tasks a, b and c) start one after the other and finish in the
      order 0, 2, 1; then request 3 (task d) arrives.\<close>
  "overlap_events =
     [Arrive (example_env engine_answer) (Some (request_for ''task-a'')),
      Arrive (example_env engine_answer) (Some (request_for ''task-b'')),
      Arrive (example_env engine_answer) (Some (request_for ''task-c'')),
      Enter 0, Begin 0, Enter 1, Begin 1, Enter 2, Begin 2,
      Finish 0, Finish 2, Finish 1,
      Arrive (example_env engine_answer) (Some (request_for ''task-d'')),
      Enter 3, Begin 3]"

definition config_single :: config where
  "config_single = default_config\<lparr>max_concurrent_tasks := 1\<rparr>"

definition admission_events :: "event list" where
  \<comment> \<open>One slot: request 0 times out, request 1 is refused before the block, request 2
      fails in the engine, request 3 is admitted and waits for its engine, request 4
      waits for a slot.\<close>
  "admission_events =
     [Arrive (example_env engine_cancelled) (Some (request_for ''task-a'')),
      Arrive (example_env engine_answer) None,
      Arrive (example_env engine_fails) (Some (request_for ''task-c'')),
      Enter 0, Begin 0, Finish 0, Enter 2, Begin 2, Finish 2,
      Arrive (example_env engine_answer) (Some (request_for ''task-d'')),
      Arrive (example_env engine_answer) (Some (request_for ''task-e'')),
      Enter 3, Begin 3]"

section \<open>The Task Runner keeps the latest text\<close>

lemma pick_append: "pick acc (ts @ us) = pick (pick acc ts) us"
  by (cases "rev us") (auto simp: pick_def)

lemma foldl_consume_block:
  "foldl consume_block acc bs = pick acc (map the (filter (\<lambda>t. t \<noteq> None) (map block_text bs)))"
proof (induction bs rule: rev_induct)
  case Nil
  show ?case by (simp add: pick_def)
next
  case (snoc b bs)
  show ?case
  proof (cases b)
    case (Block t n)
    then show ?thesis using snoc
      by (cases t; cases n) (simp_all add: pick_def)
  qed
qed

lemma consume_message_pick: "consume_message acc m = pick acc (block_texts m)"
proof (cases m)
  case (Message c)
  show ?thesis
  proof (cases c)
    case None
    with Message show ?thesis by (simp add: block_texts_def pick_def)
  next
    case (Some k)
    with Message show ?thesis
      by (cases k) (simp_all add: block_texts_def foldl_consume_block, simp_all add: pick_def)
  qed
qed

lemma foldl_consume_message:
  "foldl consume_message acc msgs = pick acc (concat (map block_texts msgs))"
  by (induction msgs rule: rev_induct)
    (simp_all add: consume_message_pick pick_append, simp add: pick_def)

lemma consume_stream_latest: "consume_stream msgs = latest_text msgs"
  by (simp add: consume_stream_def latest_text_def foldl_consume_message pick_def)

text \<open>
  Claim C7. For every finite stream of engine messages, the loop of \<^verbatim>\<open>_run_claude\<close>
  returns the text of the most recent textual content block across all messages: a
  later text replaces an earlier one, tool blocks change nothing, and with no text at
  all the result is the empty string. When the workspace was set up, the engine
  delivered that stream and the artifact phase returned, \<^verbatim>\<open>execute_task\<close> returns
  an envelope with \<open>success = True\<close> and that text as its result.
\<close>

theorem run_claude_latest_text:
  "consume_stream msgs = latest_text msgs \<and>
   (concat (map block_texts msgs) = [] \<longrightarrow> consume_stream msgs = []) \<and>
   (workspace_of cfg ev tid st = Inr ws \<and>
    setup_workspace ws st = (Inr (), oc, st1) \<and>
    engine ev (prompt_of tc) ws (fs_root st1) = (Inr msgs, r2) \<and>
    upload_artifacts cfg ev r2 ws ctx = (Inr arts, posted) \<longrightarrow>
    fst (execute_task cfg ev tc ctx tid st) =
      Inr \<lparr>success = True, result = Value (latest_text msgs), artifacts = Value arts,
            error = Absent, duration_ms = Value (elapsed_ms ev)\<rparr>)"
proof (intro conjI impI)
  show "consume_stream msgs = latest_text msgs"
    by (rule consume_stream_latest)
next
  assume none: "concat (map block_texts msgs) = []"
  have "latest_text msgs = []"
    unfolding latest_text_def none by simp
  then show "consume_stream msgs = []"
    by (simp only: consume_stream_latest)
next
  assume "workspace_of cfg ev tid st = Inr ws \<and>
    setup_workspace ws st = (Inr (), oc, st1) \<and>
    engine ev (prompt_of tc) ws (fs_root st1) = (Inr msgs, r2) \<and>
    upload_artifacts cfg ev r2 ws ctx = (Inr arts, posted)"
  then show "fst (execute_task cfg ev tc ctx tid st) =
      Inr \<lparr>success = True, result = Value (latest_text msgs), artifacts = Value arts,
            error = Absent, duration_ms = Value (elapsed_ms ev)\<rparr>"
    by (simp add: consume_stream_latest execute_task_def try_body_def run_claude_def
        handlers_def)
qed

theorem run_claude_latest_text_witness:
  "concat (map block_texts (projr (fst (engine_tools_only [] [] File)))) = [] \<and>
   consume_stream (projr (fst (engine_tools_only [] [] File))) = [] \<and>
   workspace_of default_config (example_env engine_tools_only) None example_state
     = Inr example_workspace \<and>
   fst (execute_task default_config (example_env engine_tools_only) ''list files'' ''ctx1''
          None example_state) =
     Inr \<lparr>success = True, result = Value [], artifacts = Value [], error = Absent,
           duration_ms = Value 2500\<rparr>"
proof -
  let ?ev = "example_env engine_tools_only"
  let ?msgs = "projr (fst (engine_tools_only [] [] File))"
  let ?st1 = "snd (snd (setup_workspace example_workspace example_state))"
  have h: "workspace_of default_config ?ev None example_state = Inr example_workspace \<and>
      setup_workspace example_workspace example_state = (Inr (), Some [''/'', ''app''], ?st1) \<and>
      engine ?ev (prompt_of ''list files'') example_workspace (fs_root ?st1)
        = (Inr ?msgs, fs_root ?st1) \<and>
      upload_artifacts default_config ?ev (fs_root ?st1) example_workspace ''ctx1''
        = (Inr [], [])"
    by code_simp
  have e: "concat (map block_texts ?msgs) = []"
    by code_simp
  have l: "latest_text ?msgs = []"
    by code_simp
  have d: "elapsed_ms ?ev = 2500"
    by code_simp
  have "fst (execute_task default_config ?ev ''list files'' ''ctx1'' None example_state) =
      Inr \<lparr>success = True, result = Value (latest_text ?msgs), artifacts = Value [],
            error = Absent, duration_ms = Value (elapsed_ms ?ev)\<rparr>"
    using run_claude_latest_text [THEN conjunct2, THEN conjunct2, rule_format, OF h] .
  moreover have "consume_stream ?msgs = []"
    using run_claude_latest_text [THEN conjunct2, THEN conjunct1, rule_format, OF e] .
  ultimately show ?thesis
    using e h l d by simp
qed

section \<open>Listing and deleting in the tree\<close>

lemma iterate_prefix:
  "d \<in> set (iterate_directories p n) \<longrightarrow> (\<exists>rel. fst d = p @ rel)"
  "d \<in> set (iterate_entries p es) \<longrightarrow> (\<exists>rel. fst d = p @ rel)"
  by (induction p n and p es rule: iterate_directories_iterate_entries.induct) auto

lemma rglob_items_prefix:
  assumes "x \<in> set (rglob r ws)"
  shows "\<exists>rel. fst x = ws @ rel"
proof -
  from assms obtain es d where d: "d \<in> set (iterate_directories ws (Dir es))"
    and x: "x \<in> set (entries_of d)"
    by (auto simp: rglob_def split: option.splits node.splits)
  from iterate_prefix(1) d obtain rel where "fst d = ws @ rel"
    by blast
  with x show ?thesis
    by (cases d) (auto simp: entries_of_def)
qed

lemma rglob_missing: "\<not> exists_path r ws \<Longrightarrow> rglob r ws = []"
  by (simp add: rglob_def exists_path_def)

lemma list_hidden_empty:
  assumes "list_ex startswith_dot ws"
  shows "list_workspace_files r ws True = []"
proof -
  have "\<not> keep_item True x" if "x \<in> set (rglob r ws)" for x
  proof -
    obtain item n where x: "x = (item, n)" by (cases x)
    from rglob_items_prefix [OF that] x obtain rel where "item = ws @ rel" by auto
    with assms have "list_ex startswith_dot item" by (auto simp: list_ex_iff)
    with x show ?thesis by (simp add: keep_item_def)
  qed
  then show ?thesis
    by (simp add: list_workspace_files_def filter_empty_conv)
qed

lemma lookup_remove_at: "p \<noteq> [] \<Longrightarrow> lookup (remove_at n p) p = None"
  by (induction n p rule: remove_at.induct) (auto simp: update_conv' delete_conv' split: option.splits)

section \<open>Artifact upload tolerates the failure of one file\<close>

lemma upload_loop_all:
  assumes "\<forall>f \<in> set files. post ev f (file_handler_url cfg) ctx \<noteq> Inl CancelledError"
  shows "upload_loop cfg ev r ctx files arts posted =
           (Inr (arts @ map (artifact_of cfg ev ctx) (filter (uploaded cfg ev r ctx) files)),
            posted @ filter (exists_path r) files)"
  using assms
proof (induction files arbitrary: arts posted)
  case Nil
  show ?case by simp
next
  case (Cons f files)
  from Cons.prems have nc: "post ev f (file_handler_url cfg) ctx \<noteq> Inl CancelledError"
    and rest: "\<forall>g \<in> set files. post ev g (file_handler_url cfg) ctx \<noteq> Inl CancelledError"
    by simp_all
  note ih = Cons.IH [OF rest]
  show ?case
  proof (cases "exists_path r f")
    case False
    then show ?thesis
      by (simp add: upload_to_file_handler_def uploaded_def ih)
  next
    case True
    show ?thesis
    proof (cases "post ev f (file_handler_url cfg) ctx")
      case (Inr resp)
      with True show ?thesis
        by (simp add: upload_to_file_handler_def uploaded_def artifact_of_def ih)
    next
      case (Inl e)
      with nc have "e \<noteq> CancelledError" by simp
      with True Inl show ?thesis
        by (cases e) (simp_all add: upload_to_file_handler_def uploaded_def ih)
    qed
  qed
qed

text \<open>
  Claim C5. When the upload of one of the collected files raises an exception (the file
  is gone, the endpoint answers with an error status, the request times out), the loop
  of \<^verbatim>\<open>_upload_artifacts\<close> goes on: every collected file that is still there is
  posted, the artifact list holds exactly the files whose upload was answered, in
  order, and \<^verbatim>\<open>execute_task\<close> returns \<open>success = True\<close> with that list. A
  \<open>CancelledError\<close> is the deadline's cancellation, not a failure of the upload.
\<close>

theorem upload_failure_is_skipped:
  assumes "workspace_of cfg ev tid st = Inr ws"
    and "setup_workspace ws st = (Inr (), oc, st1)"
    and "engine ev (prompt_of tc) ws (fs_root st1) = (Inr msgs, r2)"
    and "files = list_workspace_files r2 ws True"
    and "\<forall>f \<in> set files. post ev f (file_handler_url cfg) ctx \<noteq> Inl CancelledError"
  shows "upload_artifacts cfg ev r2 ws ctx =
           (Inr (map (artifact_of cfg ev ctx) (filter (uploaded cfg ev r2 ctx) files)),
            filter (exists_path r2) files) \<and>
         fst (execute_task cfg ev tc ctx tid st) =
           Inr \<lparr>success = True, result = Value (consume_stream msgs),
                 artifacts = Value (map (artifact_of cfg ev ctx) (filter (uploaded cfg ev r2 ctx) files)),
                 error = Absent, duration_ms = Value (elapsed_ms ev)\<rparr>"
proof -
  have up: "upload_artifacts cfg ev r2 ws ctx =
           (Inr (map (artifact_of cfg ev ctx) (filter (uploaded cfg ev r2 ctx) files)),
            filter (exists_path r2) files)"
  proof (cases "exists_path r2 ws")
    case True
    then show ?thesis
      using upload_loop_all [OF assms(5), of r2 "[]" "[]"] assms(4)
      by (simp add: upload_artifacts_def)
  next
    case False
    then have "files = []"
      using assms(4) by (simp add: list_workspace_files_def rglob_missing)
    with False show ?thesis
      by (simp add: upload_artifacts_def)
  qed
  with assms(1-3) show ?thesis
    by (simp add: execute_task_def try_body_def run_claude_def handlers_def)
qed

theorem upload_failure_is_skipped_witness:
  "upload_artifacts default_config env_flaky (snd (engine_writes [] [] File)) example_workspace ''ctx1'' =
     (Inr [\<lparr>filename = ''a.csv'', url = ''http://files/a.csv''\<rparr>,
           \<lparr>filename = ''c.csv'', url = ''http://files/c.csv''\<rparr>],
      [example_workspace @ [''a.csv''], example_workspace @ [''b.csv''], example_workspace @ [''c.csv'']]) \<and>
   fst (execute_task default_config env_flaky ''make three files'' ''ctx1'' None example_state) =
     Inr \<lparr>success = True, result = Value ''done'',
           artifacts = Value [\<lparr>filename = ''a.csv'', url = ''http://files/a.csv''\<rparr>,
                              \<lparr>filename = ''c.csv'', url = ''http://files/c.csv''\<rparr>],
           error = Absent, duration_ms = Value 2500\<rparr>"
proof -
  let ?r2 = "snd (engine_writes [] [] File)"
  let ?msgs = "projr (fst (engine_writes [] [] File))"
  let ?st1 = "snd (snd (setup_workspace example_workspace example_state))"
  let ?files = "list_workspace_files ?r2 example_workspace True"
  have h1: "workspace_of default_config env_flaky None example_state = Inr example_workspace"
    by code_simp
  have h2: "setup_workspace example_workspace example_state = (Inr (), Some [''/'', ''app''], ?st1)"
    by code_simp
  have h3: "engine env_flaky (prompt_of ''make three files'') example_workspace (fs_root ?st1)
      = (Inr ?msgs, ?r2)"
    by code_simp
  have h5: "\<forall>f \<in> set ?files. post env_flaky f (file_handler_url default_config) ''ctx1'' \<noteq> Inl CancelledError"
    by code_simp
  have e1: "map (artifact_of default_config env_flaky ''ctx1'')
              (filter (uploaded default_config env_flaky ?r2 ''ctx1'') ?files) =
            [\<lparr>filename = ''a.csv'', url = ''http://files/a.csv''\<rparr>,
             \<lparr>filename = ''c.csv'', url = ''http://files/c.csv''\<rparr>]"
    by code_simp
  have e2: "filter (exists_path ?r2) ?files =
      [example_workspace @ [''a.csv''], example_workspace @ [''b.csv''], example_workspace @ [''c.csv'']]"
    by code_simp
  have e3: "consume_stream ?msgs = ''done''"
    by code_simp
  have e4: "elapsed_ms env_flaky = 2500"
    by code_simp
  from upload_failure_is_skipped [OF h1 h2 h3 refl h5]
  show ?thesis
    unfolding e1 e2 e3 e4 .
qed

section \<open>Teardown of the workspace\<close>

lemma cleanup_removes:
  assumes "rmtree_error ev = None" and "tl ws \<noteq> []"
  shows "\<not> is_dir (fs_root (cleanup ev oc ws st)) ws"
proof -
  have a: "\<not> is_dir (snd (rmtree None r ws)) ws" for r
    using assms(2)
    by (auto simp: rmtree_def is_dir_def abs_lookup_def lookup_remove_at)
  have b: "\<not> exists_path r ws \<Longrightarrow> \<not> is_dir r ws" for r
    by (simp add: exists_path_def is_dir_def)
  show ?thesis
    using assms(1) a b
    by (simp add: cleanup_def Let_def)
qed

lemma upload_loop_rmtree_error:
  "upload_loop cfg (ev\<lparr>rmtree_error := x\<rparr>) r ctx files arts posted =
   upload_loop cfg ev r ctx files arts posted"
  by (induction files arbitrary: arts posted)
    (simp_all add: upload_to_file_handler_def split: sum.splits exn.splits)

lemma elapsed_rmtree_error: "elapsed_ms (ev\<lparr>rmtree_error := x\<rparr>) = elapsed_ms ev"
  by simp

lemma run_claude_rmtree_error:
  "run_claude (ev\<lparr>rmtree_error := x\<rparr>) tc ws r = run_claude ev tc ws r"
  by (simp add: run_claude_def)

lemma upload_artifacts_rmtree_error:
  "upload_artifacts cfg (ev\<lparr>rmtree_error := x\<rparr>) r ws ctx = upload_artifacts cfg ev r ws ctx"
  by (simp add: upload_artifacts_def upload_loop_rmtree_error)

lemma try_body_rmtree_error:
  "try_body cfg (ev\<lparr>rmtree_error := x\<rparr>) tc ctx ws st = try_body cfg ev tc ctx ws st"
  unfolding try_body_def run_claude_rmtree_error upload_artifacts_rmtree_error
    elapsed_rmtree_error ..

lemma handlers_rmtree_error: "handlers (ev\<lparr>rmtree_error := x\<rparr>) r = handlers ev r"
  unfolding handlers_def elapsed_rmtree_error ..

lemma workspace_of_rmtree_error:
  "workspace_of cfg (ev\<lparr>rmtree_error := x\<rparr>) tid st = workspace_of cfg ev tid st"
  by (cases tid) (simp_all add: workspace_of_def choose_task_id_def)

lemma outcome_rmtree_error:
  "fst (execute_task cfg (ev\<lparr>rmtree_error := x\<rparr>) tc ctx tid st) =
   fst (execute_task cfg ev tc ctx tid st)"
  unfolding execute_task_def workspace_of_rmtree_error try_body_rmtree_error
    handlers_rmtree_error
  by (simp split: sum.splits prod.splits)

text \<open>
  Claim C2, as amended. On every exit of \<^verbatim>\<open>execute_task\<close> the cleanup block runs:
  when the operating system does not refuse the recursive delete and the resolved
  workspace is not the root, no directory is left at the workspace path, whatever the
  engine and the uploads did; and whether the delete fails or not never changes what
  the call returns or raises.
\<close>

theorem workspace_removed_unless_delete_fails:
  assumes "workspace_of cfg ev tid st = Inr ws"
    and "rmtree_error ev = None"
    and "tl ws \<noteq> []"
  shows "\<not> is_dir (fs_root (snd (execute_task cfg ev tc ctx tid st))) ws \<and>
         fst (execute_task cfg (ev\<lparr>rmtree_error := x\<rparr>) tc ctx tid st) =
           fst (execute_task cfg ev tc ctx tid st)"
proof
  show "\<not> is_dir (fs_root (snd (execute_task cfg ev tc ctx tid st))) ws"
    using assms(1) cleanup_removes [OF assms(2,3)]
    by (simp add: execute_task_def split: prod.splits)
next
  show "fst (execute_task cfg (ev\<lparr>rmtree_error := x\<rparr>) tc ctx tid st) =
           fst (execute_task cfg ev tc ctx tid st)"
    by (rule outcome_rmtree_error)
qed

theorem workspace_removed_unless_delete_fails_witness:
  "\<not> is_dir (fs_root (snd (execute_task default_config (example_env engine_answer)
          ''compute 2+2'' ''ctx1'' None example_state))) example_workspace \<and>
   fst (execute_task default_config
          ((example_env engine_answer)\<lparr>rmtree_error := Some ''[Errno 13] Permission denied''\<rparr>)
          ''compute 2+2'' ''ctx1'' None example_state) =
     fst (execute_task default_config (example_env engine_answer)
          ''compute 2+2'' ''ctx1'' None example_state)"
proof -
  have h1: "workspace_of default_config (example_env engine_answer) None example_state
      = Inr example_workspace"
    by code_simp
  have h2: "rmtree_error (example_env engine_answer) = None"
    by code_simp
  have h3: "tl example_workspace \<noteq> []"
    by code_simp
  show ?thesis
    by (rule workspace_removed_unless_delete_fails [OF h1 h2 h3])
qed

text \<open>
  Claim C2 as stated fails: when \<^verbatim>\<open>shutil.rmtree\<close> raises, the exception is
  swallowed and the workspace directory is still there after a successful task.
\<close>

theorem workspace_persists_counterexample:
  "fst (execute_task default_config env_denied ''compute 2+2'' ''ctx1'' None example_state) =
     Inr \<lparr>success = True, result = Value ''4'', artifacts = Value [], error = Absent,
           duration_ms = Value 2500\<rparr> \<and>
   is_dir (fs_root (snd (execute_task default_config env_denied ''compute 2+2'' ''ctx1'' None
          example_state))) example_workspace"
  by code_simp

section \<open>Hidden components of the workspace path\<close>

text \<open>
  Claim C10, as amended. The hidden-file test reads every part of an item's path, the
  parts of the resolved workspace path included: when a part of the resolved workspace
  path begins with a dot, \<^verbatim>\<open>list_workspace_files\<close> returns the empty list for every
  tree, and every envelope that \<^verbatim>\<open>execute_task\<close> returns has an empty artifact list
  when the task succeeded and no artifact list when it failed.
\<close>

theorem hidden_workspace_lists_nothing:
  assumes "list_ex startswith_dot ws"
  shows "list_workspace_files r ws True = [] \<and>
         (workspace_of cfg ev tid st = Inr ws \<and>
          fst (execute_task cfg ev tc ctx tid st) = Inr e
            \<longrightarrow> artifacts e = (if success e then Value [] else Absent))"
proof (intro conjI impI)
  show "list_workspace_files r ws True = []"
    by (rule list_hidden_empty [OF assms])
next
  assume a: "workspace_of cfg ev tid st = Inr ws \<and>
          fst (execute_task cfg ev tc ctx tid st) = Inr e"
  have up: "upload_artifacts cfg ev r2 ws ctx = (Inr [], [])" for r2
    by (simp add: upload_artifacts_def list_hidden_empty [OF assms])
  from a show "artifacts e = (if success e then Value [] else Absent)"
    by (auto simp: execute_task_def try_body_def handlers_def up
        split: prod.splits sum.splits exn.splits)
qed

theorem hidden_workspace_lists_nothing_witness:
  "list_workspace_files (snd (engine_writes_hidden [] [] File)) hidden_workspace True = [] \<and>
   success (projr (fst (execute_task config_hidden (example_env engine_writes_hidden)
      ''write a report'' ''ctx1'' None example_state))) \<and>
   artifacts (projr (fst (execute_task config_hidden (example_env engine_writes_hidden)
      ''write a report'' ''ctx1'' None example_state))) = Value [] \<and>
   \<not> success (projr (fst (execute_task config_hidden (example_env engine_fails)
      ''write a report'' ''ctx1'' None example_state))) \<and>
   artifacts (projr (fst (execute_task config_hidden (example_env engine_fails)
      ''write a report'' ''ctx1'' None example_state))) = Absent"
proof -
  let ?e = "projr (fst (execute_task config_hidden (example_env engine_writes_hidden)
      ''write a report'' ''ctx1'' None example_state))"
  let ?f = "projr (fst (execute_task config_hidden (example_env engine_fails)
      ''write a report'' ''ctx1'' None example_state))"
  have h: "list_ex startswith_dot hidden_workspace"
    by code_simp
  have k: "workspace_of config_hidden (example_env engine_writes_hidden) None example_state
        = Inr hidden_workspace \<and>
      fst (execute_task config_hidden (example_env engine_writes_hidden)
        ''write a report'' ''ctx1'' None example_state) = Inr ?e"
    by code_simp
  have l: "workspace_of config_hidden (example_env engine_fails) None example_state
        = Inr hidden_workspace \<and>
      fst (execute_task config_hidden (example_env engine_fails)
        ''write a report'' ''ctx1'' None example_state) = Inr ?f"
    by code_simp
  have s: "success ?e" "\<not> success ?f"
    by code_simp+
  from hidden_workspace_lists_nothing [OF h, THEN conjunct2, rule_format, OF k] s(1)
  have "artifacts ?e = Value []"
    by simp
  moreover
  from hidden_workspace_lists_nothing [OF h, THEN conjunct2, rule_format, OF l] s(2)
  have "artifacts ?f = Absent"
    by simp
  moreover note hidden_workspace_lists_nothing [OF h, THEN conjunct1] s
  ultimately show ?thesis
    by blast
qed

text \<open>
  Claim C10 as stated fails twice. A \<^verbatim>\<open>..\<close> component begins with a dot, but
  \<^verbatim>\<open>resolve()\<close> folds it away before any file is listed: with
  \<^verbatim>\<open>WORKSPACE_BASE=/srv/../tmp/claude-workspaces\<close> the three files are listed and the
  task reports three artifacts. And below \<^verbatim>\<open>/home/agent/.cache/workspaces\<close> a task
  whose engine fails reports no artifact list at all, not an empty one.
\<close>

theorem dotdot_base_counterexample:
  "list_ex startswith_dot (path_parts (workspace_base config_dotdot)) \<and>
   workspace_of config_dotdot (example_env engine_writes) None example_state
     = Inr example_workspace \<and>
   list_workspace_files (snd (engine_writes [] [] File)) example_workspace True =
     [example_workspace @ [''a.csv''], example_workspace @ [''b.csv''],
      example_workspace @ [''c.csv'']] \<and>
   fst (execute_task config_dotdot (example_env engine_writes) ''make three files'' ''ctx1''
          None example_state) =
     Inr \<lparr>success = True, result = Value ''done'',
           artifacts = Value [\<lparr>filename = ''a.csv'', url = ''http://files/a.csv''\<rparr>,
                              \<lparr>filename = ''b.csv'', url = ''http://files/b.csv''\<rparr>,
                              \<lparr>filename = ''c.csv'', url = ''http://files/c.csv''\<rparr>],
           error = Absent, duration_ms = Value 2500\<rparr> \<and>
   list_ex startswith_dot (path_parts (workspace_base config_hidden)) \<and>
   fst (execute_task config_hidden (example_env engine_fails) ''write a report'' ''ctx1''
          None example_state) =
     Inr \<lparr>success = False, result = Null, artifacts = Absent,
           error = Value ''engine crashed'', duration_ms = Value 2500\<rparr>"
  by code_simp

section \<open>Compiled files are not filtered\<close>

text \<open>
  Claim C6, at the input where the code departs from it: the test
  \<^verbatim>\<open>item.name in ("__pycache__", ".pyc", ".pyo")\<close> compares the whole file name, so
  \<^verbatim>\<open>mod.pyc\<close> and the content of \<^verbatim>\<open>__pycache__\<close> are listed beside
  \<^verbatim>\<open>report.csv\<close>; the hidden \<^verbatim>\<open>.cache\<close> and the content of \<^verbatim>\<open>.git\<close> are not.
\<close>

theorem pyc_files_are_listed:
  "list_workspace_files pyc_tree [''/'', ''ws''] True =
     [[''/'', ''ws'', ''report.csv''], [''/'', ''ws'', ''mod.pyc''],
      [''/'', ''ws'', ''__pycache__'', ''mod.cpython-311.pyc'']]"
  by code_simp

section \<open>The deadline\<close>

text \<open>
  Claim C1, at the input where the code departs from it: a valid request whose engine
  run is still awaited at the deadline gets the envelope built in
  \<^verbatim>\<open>handle_execute\<close>, which has an error and no result, and no \<^verbatim>\<open>duration_ms\<close>.
\<close>

theorem timeout_envelope_lacks_duration:
  "map_option fst (handle_execute default_config (example_env engine_cancelled) 0
      (Some example_request) example_service) =
     Some \<lparr>status = 200,
           body = \<lparr>success = False, result = Absent, artifacts = Absent,
                    error = Value ''Task timed out after 300s'', duration_ms = Absent\<rparr>\<rparr>"
  by code_simp

text \<open>
  Claim C4, at the input where the code departs from it. The envelope with the fixed
  message \<^verbatim>\<open>Task timed out\<close> is the one \<^verbatim>\<open>execute_task\<close> builds for a
  TimeoutError, as it does when the engine itself raises one. The deadline does not
  arrive there: it cancels \<^verbatim>\<open>execute_task\<close>, during the engine's run or during an
  upload, the cancellation passes both handlers, and the caller gets the message of
  \<^verbatim>\<open>handle_execute\<close>, which varies with the configured deadline.
\<close>

theorem deadline_misses_fixed_message:
  "map_option fst (handle_execute config_short (example_env engine_cancelled) 0
      (Some example_request) example_service) =
     Some \<lparr>status = 200,
           body = \<lparr>success = False, result = Absent, artifacts = Absent,
                    error = Value ''Task timed out after 5s'', duration_ms = Absent\<rparr>\<rparr> \<and>
   map_option fst (handle_execute config_short env_upload_cancelled 0
      (Some example_request) example_service) =
     Some \<lparr>status = 200,
           body = \<lparr>success = False, result = Absent, artifacts = Absent,
                    error = Value ''Task timed out after 5s'', duration_ms = Absent\<rparr>\<rparr> \<and>
   fst (execute_task config_short (example_env engine_times_out) ''compute 2+2'' ''ctx1''
          None example_state) =
     Inr \<lparr>success = False, result = Null, artifacts = Absent,
           error = Value ''Task timed out'', duration_ms = Value 2500\<rparr>"
  by code_simp

section \<open>Generated task identifiers\<close>

lemma lt10_cases:
  assumes "d < (10::nat)"
  shows "d = 0 \<or> d = 1 \<or> d = 2 \<or> d = 3 \<or> d = 4 \<or> d = 5 \<or> d = 6 \<or> d = 7 \<or> d = 8 \<or> d = 9"
  using assms by arith

lemma digit_val_digit_char: "d < 10 \<Longrightarrow> digit_val (digit_char d) = d"
  by (drule lt10_cases) (auto simp: digit_val_def digit_char_def upt_rec)

lemma digit_char_not_minus: "d < 10 \<Longrightarrow> digit_char d \<noteq> CHR ''-''"
  by (drule lt10_cases) (auto simp: digit_char_def)

lemma nat_of_digits_str_nat: "nat_of_digits (str_nat n) = n"
proof (induction n rule: str_nat.induct)
  case (1 n)
  show ?case
  proof (cases "n < 10")
    case True
    then show ?thesis
      by (subst str_nat.simps) (simp add: nat_of_digits_def digit_val_digit_char)
  next
    case False
    with 1 have "nat_of_digits (str_nat (n div 10)) = n div 10" by simp
    with False show ?thesis
      by (subst str_nat.simps) (simp add: nat_of_digits_def digit_val_digit_char)
  qed
qed

lemma str_nat_inj: "str_nat m = str_nat n \<Longrightarrow> m = n"
  by (metis nat_of_digits_str_nat)

lemma str_nat_no_minus: "CHR ''-'' \<notin> set (str_nat n)"
proof (induction n rule: str_nat.induct)
  case (1 n)
  show ?case
  proof (cases "n < 10")
    case True
    then show ?thesis
      using digit_char_not_minus [of n] by (subst str_nat.simps) auto
  next
    case False
    with 1 have "CHR ''-'' \<notin> set (str_nat (n div 10))" by simp
    with False show ?thesis
      using digit_char_not_minus [of "n mod 10"] by (subst str_nat.simps) auto
  qed
qed

lemma str_int_inj: "str_int i = str_int j \<Longrightarrow> i = j"
proof -
  assume eq: "str_int i = str_int j"
  have neg: "False" if "a < 0" "\<not> b < 0" "str_int a = str_int b" for a b
  proof -
    from that have "CHR ''-'' # str_nat (nat (- a)) = str_nat (nat b)"
      by (simp add: str_int_def)
    then have "CHR ''-'' \<in> set (str_nat (nat b))"
      by (metis list.set_intros(1))
    with str_nat_no_minus show False by blast
  qed
  show ?thesis
  proof (cases "i < 0"; cases "j < 0")
    assume "i < 0" "j < 0"
    with eq have "nat (- i) = nat (- j)" by (simp add: str_int_def str_nat_inj)
    with \<open>i < 0\<close> \<open>j < 0\<close> show ?thesis by simp
  next
    assume "i < 0" "\<not> j < 0"
    with neg eq show ?thesis by blast
  next
    assume "\<not> i < 0" "j < 0"
    with neg [of j i] eq show ?thesis by simp
  next
    assume "\<not> i < 0" "\<not> j < 0"
    with eq have "nat i = nat j" by (simp add: str_int_def str_nat_inj)
    with \<open>\<not> i < 0\<close> \<open>\<not> j < 0\<close> show ?thesis by simp
  qed
qed

text \<open>
  Claim C8, as amended. Two invocations of \<^verbatim>\<open>execute_task\<close> without a task
  identifier generate different identifiers exactly when the millisecond timestamps
  they read on line 26 differ: the identifier is the prefix \<^verbatim>\<open>cc-\<close> and the decimal
  numeral of the timestamp, which determines the timestamp.
\<close>

theorem generated_ids_differ_iff_milliseconds_differ:
  "(gen_task_id m1 = gen_task_id m2 \<longleftrightarrow> m1 = m2) \<and>
   (choose_task_id ev1 None = choose_task_id ev2 None \<longleftrightarrow> now_ms ev1 = now_ms ev2)"
  by (auto simp: gen_task_id_def choose_task_id_def dest: str_int_inj)

text \<open>
  Claim C8 as stated fails: two invocations whose clock readings are 400 microseconds
  apart, in the same millisecond, both generate \<^verbatim>\<open>cc-1000\<close>.
\<close>

theorem same_millisecond_counterexample:
  "start_time env_burst_a \<noteq> start_time env_burst_b \<and>
   choose_task_id env_burst_a None = ''cc-1000'' \<and>
   choose_task_id env_burst_b None = ''cc-1000''"
  by code_simp

section \<open>Admission by the semaphore\<close>

lemma execute_task_segments:
  "execute_task cfg ev tc ctx tid st =
     (case execute_begin cfg ev tid st of
        (Inl r, st') \<Rightarrow> (r, st')
      | (Inr rt, st1) \<Rightarrow> execute_finish cfg ev tc ctx rt st1)"
  by (simp add: execute_task_def execute_begin_def execute_finish_def try_body_def
      handlers_def split: sum.splits prod.splits)

lemma receive_status: "receive data = Inl resp \<Longrightarrow> status resp = 400"
  by (auto simp: receive_def split: option.splits if_splits)

lemma leave_block_effect:
  assumes "leave_block cfg i outcome sv = (resp, sv')"
  shows "sv' = release i (sv\<lparr>proc := snd outcome\<rparr>) \<and> status resp \<noteq> 400"
  using assms
  by (cases outcome) (auto simp: leave_block_def split: sum.splits exn.splits)

lemma acquire_effect:
  assumes "acquire i sv = Some sv'"
  shows "0 < sem_value sv \<and>
         sv' = sv\<lparr>sem_value := sem_value sv - 1, acquire_log := acquire_log sv @ [i]\<rparr>"
  using assms by (auto simp: acquire_def split: if_splits)

lemma filter_update_count:
  "i < length xs \<Longrightarrow>
   length (filter P (xs[i := x])) + (if P (xs ! i) then 1 else 0) =
   length (filter P xs) + (if P x then 1 else 0)"
proof (induction xs arbitrary: i)
  case Nil
  then show ?case by simp
next
  case (Cons y ys)
  show ?case
  proof (cases i)
    case 0
    then show ?thesis by simp
  next
    case (Suc k)
    with Cons.prems have "k < length ys" by simp
    from Cons.IH [OF this] Suc show ?thesis by simp
  qed
qed

lemma count_list_replicate: "count_list (replicate n x) y = (if x = y then n else 0)"
  by (induction n) auto

lemma count_list_snoc: "count_list (xs @ [a]) j = count_list xs j + (if a = j then 1 else 0)"
  by (induction xs) auto

lemma sys_inv_update:
  assumes inv: "sys_inv cfg s" and i: "i < length (requests s)"
    and acq: "acquire_log sv = acquire_log (svc s) @ replicate a i"
    and rel: "release_log sv = release_log (svc s) @ replicate b i"
    and due_a: "acquisitions_due g = acquisitions_due (snd (requests s ! i)) + a"
    and due_r: "releases_due g = releases_due (snd (requests s ! i)) + b"
    and val: "sem_value sv + (if holds_slot (ev, g) then 1 else 0) =
              sem_value (svc s) + (if holds_slot (requests s ! i) then 1 else 0)"
  shows "sys_inv cfg (set_stage i g sv s)"
proof -
  let ?s' = "set_stage i g sv s"
  have req: "requests ?s' = (requests s)[i := (fst (requests s ! i), g)]" and svc: "svc ?s' = sv"
    by (simp_all add: set_stage_def)
  have hs: "holds_slot (fst (requests s ! i), g) = holds_slot (ev, g)"
    by (simp add: holds_slot_def)
  note cnt = count_list_replicate
  from filter_update_count [OF i, of holds_slot "(fst (requests s ! i), g)"]
  have "holding ?s' + (if holds_slot (requests s ! i) then 1 else 0) =
        holding s + (if holds_slot (ev, g) then 1 else 0)"
    by (simp add: holding_def req hs)
  with val inv have 1: "int (sem_value (svc ?s') + holding ?s') = max_concurrent_tasks cfg"
    by (auto simp: sys_inv_def svc split: if_splits)
  have 2: "accounted ?s' j" if "j < length (requests ?s')" for j
  proof (cases "j = i")
    case True
    with inv i have "accounted s i" by (simp add: sys_inv_def)
    with True i show ?thesis
      by (simp add: accounted_def req svc acq rel cnt due_a due_r)
  next
    case False
    with that inv have "accounted s j" by (simp add: sys_inv_def req)
    with False that show ?thesis
      by (simp add: accounted_def req svc acq rel cnt)
  qed
  have 3: "count_list (acquire_log (svc ?s')) j = 0 \<and> count_list (release_log (svc ?s')) j = 0"
    if "length (requests ?s') \<le> j" for j
  proof -
    from that i have "j \<noteq> i" "length (requests s) \<le> j" by (simp_all add: req)
    with inv show ?thesis
      by (simp add: sys_inv_def svc acq rel cnt)
  qed
  from 1 2 3 show ?thesis
    by (simp add: sys_inv_def)
qed


lemma sys_inv_init:
  assumes "system_init cfg p = Inr s0"
  shows "sys_inv cfg s0"
  using assms
  by (auto simp: system_init_def service_init_def sys_inv_def holding_def
      split: if_splits)

lemma sys_inv_arrive:
  assumes inv: "sys_inv cfg s"
  shows "sys_inv cfg (s\<lparr>requests := requests s @
           [(ev, case receive data of Inl resp \<Rightarrow> Responded resp | Inr a \<Rightarrow> Queued a)]\<rparr>)"
proof -
  let ?g = "case receive data of Inl resp \<Rightarrow> Responded resp | Inr a \<Rightarrow> Queued a"
  let ?s' = "s\<lparr>requests := requests s @ [(ev, ?g)]\<rparr>"
  have g: "acquisitions_due ?g = 0" "releases_due ?g = 0" "\<not> holds_slot (ev, ?g)"
    by (auto simp: acquisitions_due_def releases_due_def holds_slot_def receive_status
        split: sum.splits)
  from inv g(3) have 1: "int (sem_value (svc ?s') + holding ?s') = max_concurrent_tasks cfg"
    by (simp add: sys_inv_def holding_def)
  have 2: "accounted ?s' j" if "j < length (requests ?s')" for j
  proof (cases "j < length (requests s)")
    case True
    with inv have "accounted s j" by (simp add: sys_inv_def)
    with True show ?thesis by (simp add: accounted_def nth_append)
  next
    case False
    with that have j: "j = length (requests s)" by simp
    with inv have "count_list (acquire_log (svc s)) j = 0 \<and> count_list (release_log (svc s)) j = 0"
      by (simp add: sys_inv_def)
    with j g show ?thesis by (simp add: accounted_def nth_append)
  qed
  from inv have 3: "count_list (acquire_log (svc ?s')) j = 0 \<and>
      count_list (release_log (svc ?s')) j = 0" if "length (requests ?s') \<le> j" for j
    using that by (simp add: sys_inv_def)
  from 1 2 3 show ?thesis
    by (simp add: sys_inv_def)
qed

lemma sys_inv_released:
  assumes inv: "sys_inv cfg s" and i: "i < length (requests s)"
    and running: "holds_slot (requests s ! i)"
    and out: "leave_block cfg i outcome (svc s) = (resp, sv)"
  shows "sys_inv cfg (set_stage i (Responded resp) sv s)"
proof -
  from leave_block_effect [OF out]
  have sv: "sv = release i ((svc s)\<lparr>proc := snd outcome\<rparr>)" and st: "status resp \<noteq> 400"
    by simp_all
  from running have due: "acquisitions_due (snd (requests s ! i)) = 1"
      "releases_due (snd (requests s ! i)) = 0"
    by (auto simp: holds_slot_def acquisitions_due_def releases_due_def split: stage.splits)
  show ?thesis
  proof (rule sys_inv_update [OF inv i, where a = 0 and b = 1 and ev = "fst (requests s ! i)"])
    show "acquire_log sv = acquire_log (svc s) @ replicate 0 i"
      by (simp add: sv release_def)
    show "release_log sv = release_log (svc s) @ replicate 1 i"
      by (simp add: sv release_def)
    show "acquisitions_due (Responded resp) = acquisitions_due (snd (requests s ! i)) + 0"
      using st due by (simp add: acquisitions_due_def)
    show "releases_due (Responded resp) = releases_due (snd (requests s ! i)) + 1"
      using st due by (simp add: releases_due_def)
    show "sem_value sv + (if holds_slot (fst (requests s ! i), Responded resp) then 1 else 0) =
          sem_value (svc s) + (if holds_slot (requests s ! i) then 1 else 0)"
      using running by (simp add: sv release_def holds_slot_def)
  qed
qed

lemma sys_inv_step:
  assumes inv: "sys_inv cfg s" and step: "step cfg e s = Some s'"
  shows "sys_inv cfg s'"
proof (cases e)
  case (Arrive ev data)
  with step sys_inv_arrive [OF inv] show ?thesis
    by auto
next
  case (Enter i)
  with step obtain ev a sv where i: "i < length (requests s)"
    and q: "requests s ! i = (ev, Queued a)"
    and acq: "acquire i (svc s) = Some sv"
    and s': "s' = set_stage i (Admitted a) sv s"
    by (auto split: if_splits prod.splits stage.splits option.splits)
  from acquire_effect [OF acq] have pos: "0 < sem_value (svc s)"
    and sv: "sv = (svc s)\<lparr>sem_value := sem_value (svc s) - 1,
                          acquire_log := acquire_log (svc s) @ [i]\<rparr>"
    by simp_all
  show ?thesis
    unfolding s'
  proof (rule sys_inv_update [OF inv i, where a = 1 and b = 0 and ev = ev])
    show "acquire_log sv = acquire_log (svc s) @ replicate 1 i"
      by (simp add: sv)
    show "release_log sv = release_log (svc s) @ replicate 0 i"
      by (simp add: sv)
    show "acquisitions_due (Admitted a) = acquisitions_due (snd (requests s ! i)) + 1"
      by (simp add: q acquisitions_due_def)
    show "releases_due (Admitted a) = releases_due (snd (requests s ! i)) + 0"
      by (simp add: q releases_due_def)
    show "sem_value sv + (if holds_slot (ev, Admitted a) then 1 else 0) =
          sem_value (svc s) + (if holds_slot (requests s ! i) then 1 else 0)"
      using pos by (simp add: sv q holds_slot_def)
  qed
next
  case (Begin i)
  with step obtain ev tc ctx tid where i: "i < length (requests s)"
    and q: "requests s ! i = (ev, Admitted (tc, ctx, tid))"
    by (auto split: if_splits prod.splits stage.splits)
  have running: "holds_slot (requests s ! i)"
    by (simp add: q holds_slot_def)
  obtain b p' where b: "execute_begin cfg ev tid (proc (svc s)) = (b, p')"
    by (cases "execute_begin cfg ev tid (proc (svc s))")
  show ?thesis
  proof (cases b)
    case (Inl r)
    obtain resp sv where out: "leave_block cfg i (r, p') (svc s) = (resp, sv)"
      by (cases "leave_block cfg i (r, p') (svc s)")
    with step Begin i q b Inl have "s' = set_stage i (Responded resp) sv s"
      by simp
    with sys_inv_released [OF inv i running out] show ?thesis
      by simp
  next
    case (Inr rt)
    with step Begin i q b
    have s': "s' = set_stage i (InFlight (tc, ctx, tid) rt) ((svc s)\<lparr>proc := p'\<rparr>) s"
      by simp
    show ?thesis
      unfolding s'
      by (rule sys_inv_update [OF inv i, where a = 0 and b = 0 and ev = ev])
        (simp_all add: q acquisitions_due_def releases_due_def holds_slot_def)
  qed
next
  case (Finish i)
  with step obtain ev tc ctx tid rt where i: "i < length (requests s)"
    and q: "requests s ! i = (ev, InFlight (tc, ctx, tid) rt)"
    by (auto split: if_splits prod.splits stage.splits)
  have running: "holds_slot (requests s ! i)"
    by (simp add: q holds_slot_def)
  obtain resp sv where out: "leave_block cfg i
      (execute_finish cfg ev tc ctx rt (proc (svc s))) (svc s) = (resp, sv)"
    by (cases "leave_block cfg i (execute_finish cfg ev tc ctx rt (proc (svc s))) (svc s)")
  with step Finish i q have "s' = set_stage i (Responded resp) sv s"
    by simp
  with sys_inv_released [OF inv i running out] show ?thesis
    by simp
qed

lemma sys_inv_run: "sys_inv cfg s \<Longrightarrow> run_events cfg evs s = Some s' \<Longrightarrow> sys_inv cfg s'"
  by (induction evs arbitrary: s) (auto split: option.splits dest: sys_inv_step)

lemma set_stage_last:
  "set_stage (length rs) g sv \<lparr>svc = v, requests = rs @ [(ev, g0)]\<rparr> =
   \<lparr>svc = sv, requests = rs @ [(ev, g)]\<rparr>"
  by (simp add: set_stage_def)

lemma leave_block_proc: "leave_block cfg i x (sv\<lparr>proc := p\<rparr>) = leave_block cfg i x sv"
  by (cases x) (simp add: leave_block_def split: sum.splits exn.splits)

lemma handle_execute_as_events:
  assumes "handle_execute cfg ev (length (requests s)) data (svc s) = Some (resp, sv)"
  shows "\<exists>evs. run_events cfg (Arrive ev data # evs) s =
           Some \<lparr>svc = sv, requests = requests s @ [(ev, Responded resp)]\<rparr>"
proof (cases "receive data")
  case (Inl r)
  with assms have "resp = r" "sv = svc s"
    by (simp_all add: handle_execute_def)
  with Inl have "run_events cfg (Arrive ev data # []) s =
      Some \<lparr>svc = sv, requests = requests s @ [(ev, Responded resp)]\<rparr>"
    by simp
  then show ?thesis by blast
next
  case (Inr a)
  then obtain tc ctx tid where rc: "receive data = Inr (tc, ctx, tid)"
    by (cases a) simp
  let ?i = "length (requests s)"
  let ?rs = "requests s"
  from assms rc obtain sv1 where acq: "acquire ?i (svc s) = Some sv1"
    and out: "leave_block cfg ?i (execute_task cfg ev tc ctx tid (proc sv1)) sv1 = (resp, sv)"
    by (auto simp: handle_execute_def split: option.splits)
  have e1: "step cfg (Arrive ev data) s =
      Some \<lparr>svc = svc s, requests = ?rs @ [(ev, Queued (tc, ctx, tid))]\<rparr>"
    using rc by simp
  have e2: "step cfg (Enter ?i) \<lparr>svc = svc s, requests = ?rs @ [(ev, Queued (tc, ctx, tid))]\<rparr> =
      Some \<lparr>svc = sv1, requests = ?rs @ [(ev, Admitted (tc, ctx, tid))]\<rparr>"
    using acq by (simp add: set_stage_last)
  obtain b p' where b: "execute_begin cfg ev tid (proc sv1) = (b, p')"
    by (cases "execute_begin cfg ev tid (proc sv1)")
  show ?thesis
  proof (cases b)
    case (Inl r)
    with b have "execute_task cfg ev tc ctx tid (proc sv1) = (r, p')"
      by (simp add: execute_task_segments)
    with out have "leave_block cfg ?i (r, p') sv1 = (resp, sv)" by simp
    with b Inl have "step cfg (Begin ?i)
        \<lparr>svc = sv1, requests = ?rs @ [(ev, Admitted (tc, ctx, tid))]\<rparr> =
        Some \<lparr>svc = sv, requests = ?rs @ [(ev, Responded resp)]\<rparr>"
      by (simp add: set_stage_last)
    with e1 e2 have "run_events cfg (Arrive ev data # [Enter ?i, Begin ?i]) s =
        Some \<lparr>svc = sv, requests = ?rs @ [(ev, Responded resp)]\<rparr>"
      by simp
    then show ?thesis by blast
  next
    case (Inr rt)
    from b Inr have fin: "execute_task cfg ev tc ctx tid (proc sv1) =
        execute_finish cfg ev tc ctx rt p'"
      by (simp add: execute_task_segments)
    from b Inr have e3: "step cfg (Begin ?i)
        \<lparr>svc = sv1, requests = ?rs @ [(ev, Admitted (tc, ctx, tid))]\<rparr> =
        Some \<lparr>svc = sv1\<lparr>proc := p'\<rparr>, requests = ?rs @ [(ev, InFlight (tc, ctx, tid) rt)]\<rparr>"
      by (simp add: set_stage_last)
    from out fin have "leave_block cfg ?i (execute_finish cfg ev tc ctx rt p')
        (sv1\<lparr>proc := p'\<rparr>) = (resp, sv)"
      by (simp add: leave_block_proc)
    then have e4: "step cfg (Finish ?i)
        \<lparr>svc = sv1\<lparr>proc := p'\<rparr>, requests = ?rs @ [(ev, InFlight (tc, ctx, tid) rt)]\<rparr> =
        Some \<lparr>svc = sv, requests = ?rs @ [(ev, Responded resp)]\<rparr>"
      by (simp add: set_stage_last)
    from e1 e2 e3 e4 have "run_events cfg (Arrive ev data # [Enter ?i, Begin ?i, Finish ?i]) s =
        Some \<lparr>svc = sv, requests = ?rs @ [(ev, Responded resp)]\<rparr>"
      by simp
    then show ?thesis by blast
  qed
qed

text \<open>
  Claim C3. The semaphore is created with \<^verbatim>\<open>MAX_CONCURRENT_TASKS\<close> slots. In every
  state that the handlers reach from there, however their segments interleave and
  whatever their engines and endpoints do, at most that many requests are inside the
  \<^verbatim>\<open>async with\<close> block, the free slots and those requests add up to the maximum, and
  every request is accounted for: \<^verbatim>\<open>acquire\<close> has returned once for each request
  that entered the block, and \<^verbatim>\<open>release\<close> has been called once for each request
  answered from inside it (by the return after \<^verbatim>\<open>execute_task\<close> returned, after it
  raised, or after it timed out) and for no other.
\<close>

theorem semaphore_bounds_running:
  assumes "system_init cfg p = Inr s0" and "run_events cfg evs s0 = Some s"
  shows "int (holding s) \<le> max_concurrent_tasks cfg \<and>
         int (sem_value (svc s) + holding s) = max_concurrent_tasks cfg \<and>
         (\<forall>i < length (requests s). accounted s i)"
  using sys_inv_run [OF sys_inv_init [OF assms(1)] assms(2)]
  by (auto simp: sys_inv_def)

theorem semaphore_bounds_running_witness:
  "int (holding (the (run_events config_single admission_events
      (projr (system_init config_single example_state))))) \<le> max_concurrent_tasks config_single \<and>
   accounted (the (run_events config_single admission_events
      (projr (system_init config_single example_state)))) 0 \<and>
   accounted (the (run_events config_single admission_events
      (projr (system_init config_single example_state)))) 3 \<and>
   map (count_list (release_log (svc (the (run_events config_single admission_events
      (projr (system_init config_single example_state))))))) [0, 1, 2, 3, 4] = [1, 0, 1, 0, 0]"
proof -
  let ?init = "projr (system_init config_single example_state)"
  let ?s = "the (run_events config_single admission_events ?init)"
  have "\<not> isl (system_init config_single example_state)"
    by code_simp
  then have h1: "system_init config_single example_state = Inr ?init"
    by simp
  have "\<not> Option.is_none (run_events config_single admission_events ?init)"
    by code_simp
  then have h2: "run_events config_single admission_events ?init = Some ?s"
    by (simp add: Option.is_none_def)
  note t = semaphore_bounds_running [OF h1 h2]
  have len: "0 < length (requests ?s)" "3 < length (requests ?s)"
    by code_simp+
  have logs: "map (count_list (release_log (svc ?s))) [0, 1, 2, 3, 4] = [1, 0, 1, 0, 0]"
    by code_simp
  from t len have "accounted ?s 0" "accounted ?s 3"
    by blast+
  with t logs show ?thesis
    by blast
qed

section \<open>The working directory of the process\<close>

lemma lost_cwd_fails_every_task:
  assumes "\<not> is_dir (fs_root st) (cwd st)"
    and "workspace_of cfg ev tid st = Inr ws"
    and "mkdir (fs_root st) ws = Inr r1"
    and "\<not> is_dir r1 (cwd st)"
  shows "fst (execute_task cfg ev tc ctx tid st) =
     Inr \<lparr>success = False, result = Null, artifacts = Absent,
           error = Value ''[Errno 2] No such file or directory'',
           duration_ms = Value (elapsed_ms ev)\<rparr>"
  using assms
  by (simp add: execute_task_def try_body_def setup_workspace_def getcwd_def handlers_def)

text \<open>
  Claim C9, at the input where the code departs from it. Three tasks are in flight
  together and finish in the order a, c, b. Each saved the working directory it found,
  which was the workspace of the task started before it, and changed to its own: task c
  restores the process to the workspace of b, task b cannot restore the deleted
  workspace of a and then deletes its own. The process is left in a directory that no
  longer exists, and the next task fails at \<^verbatim>\<open>os.getcwd()\<close>.
\<close>

theorem overlapping_tasks_lose_the_cwd:
  "map_option
     (\<lambda>s. (cwd (proc (svc s)), is_dir (fs_root (proc (svc s))) (cwd (proc (svc s))),
           map snd (requests s)))
     (run_events default_config overlap_events
        \<lparr>svc = example_service, requests = []\<rparr>) =
   Some (workspace_b, False,
     [Responded \<lparr>status = 200,
                 body = \<lparr>success = True, result = Value ''4'', artifacts = Value [],
                          error = Absent, duration_ms = Value 2500\<rparr>\<rparr>,
      Responded \<lparr>status = 200,
                 body = \<lparr>success = True, result = Value ''4'', artifacts = Value [],
                          error = Absent, duration_ms = Value 2500\<rparr>\<rparr>,
      Responded \<lparr>status = 200,
                 body = \<lparr>success = True, result = Value ''4'', artifacts = Value [],
                          error = Absent, duration_ms = Value 2500\<rparr>\<rparr>,
      Responded \<lparr>status = 200,
                 body = \<lparr>success = False, result = Null, artifacts = Absent,
                          error = Value ''[Errno 2] No such file or directory'',
                          duration_ms = Value 2500\<rparr>\<rparr>])"
  by code_simp

end
